theory Spec2Isabelle
  imports Complex_Main
begin

section \<open>Objects keyed by entity id\<close>

text \<open>
  Every component category of the simulation (\<^verbatim>\<open>components.position\<close>,
  \<^verbatim>\<open>components.targeting\<close>, ...) is a JavaScript object whose property names are entity
  ids. Such an object is modelled as an association list. JavaScript enumerates integer
  property names in ascending numeric order (\<^verbatim>\<open>for ... in\<close>, \<^verbatim>\<open>Object.values\<close>), so a
  write puts the pair at its place in the ascending order of the keys.
\<close>

type_synonym 'v obj = "(nat \<times> 'v) list"

definition obj_get :: "'v obj \<Rightarrow> nat \<Rightarrow> 'v option" where
  "obj_get m k = map_of m k"

definition obj_delete :: "'v obj \<Rightarrow> nat \<Rightarrow> 'v obj" where
  "obj_delete m k = filter (\<lambda>p. fst p \<noteq> k) m"

definition obj_set :: "'v obj \<Rightarrow> nat \<Rightarrow> 'v \<Rightarrow> 'v obj" where
  "obj_set m k v = insort_key fst (k, v) (obj_delete m k)"

definition obj_keys :: "'v obj \<Rightarrow> nat list" where
  "obj_keys m = map fst m"

definition obj_values :: "'v obj \<Rightarrow> 'v list" where
  "obj_values m = map snd m"

text \<open>The representation invariant of an object: keys strictly ascending.\<close>

definition obj_wf :: "'v obj \<Rightarrow> bool" where
  "obj_wf m = sorted_wrt (<) (map fst m)"

section \<open>Entities and components\<close>

text \<open>
  The only error the code can raise is the \<^verbatim>\<open>TypeError\<close> of reading a property of
  \<^verbatim>\<open>undefined\<close>. Nothing catches it: a function that raises returns \<open>Inl TypeError\<close>
  and no state.
\<close>

datatype error = TypeError

text \<open>
  A JavaScript value that is a number or a string: \<^verbatim>\<open>parentEntityId\<close> is written as a
  number and compared with \<^verbatim>\<open>===\<close> against a string.
\<close>

datatype jsval = Num nat | Str string

record TargetPartType =
  partType :: string
  parentEntityId :: jsval

text \<open>
  An entity record \<^verbatim>\<open>{ id, type, components }\<close>. Of \<^verbatim>\<open>entity.components\<close> only the
  property \<^verbatim>\<open>targetPartType\<close> is ever read; \<open>None\<close> is \<^verbatim>\<open>undefined\<close>.
\<close>

record Entity =
  entity_id :: nat
  entity_type :: string
  entity_components_targetPartType :: "TargetPartType option"

record PositionComponent =
  pos_x :: real
  pos_y :: real

record HealthComponent =
  health_value :: int

record WeaponSlotsComponent =
  weaponIds :: "nat option list"

record WeaponComponent =
  weaponType :: string

record EnemyTypeComponent =
  enemy_type :: string

record TargetingComponent =
  source :: nat
  target :: nat
  color :: string
  enabled :: bool

text \<open>
  The whole mutable state of the program: the \<^verbatim>\<open>EntityComponentSystem\<close> instance (entity
  array, component categories, id counter), the two targeting flags, the lines written to
  the console, and the number of \<^verbatim>\<open>Math.random()\<close> calls made so far. A component object
  is stored under the key \<^verbatim>\<open>data.entityId\<close>; that field is read nowhere else, so the model
  passes the key to \<open>obj_set\<close> and leaves the field out of the records. A category that
  was never written is the empty object. Ids are natural numbers; health and damage are
  integers, as every value the tables and the spawn helpers give them; coordinates,
  distances and probabilities are reals.
\<close>

record World =
  entities :: "Entity list"
  position :: "PositionComponent obj"
  health :: "HealthComponent obj"
  weaponSlots :: "WeaponSlotsComponent obj"
  weapon :: "WeaponComponent obj"
  enemyType :: "EnemyTypeComponent obj"
  targetPartType :: "TargetPartType obj"
  targeting :: "TargetingComponent obj"
  nodeId :: nat
  enemyTargetingEnabled :: bool
  agentTargetingEnabled :: bool
  console :: "string list"
  randomCalls :: nat

section \<open>Static configuration tables\<close>

definition AGENT :: string where "AGENT = ''agent''"
definition WEAPON :: string where "WEAPON = ''weapon''"
definition TARGET_PART :: string where "TARGET_PART = ''target-part''"
definition ENEMY :: string where "ENEMY = ''enemy''"

definition WeaponTypes :: "string list" where
  "WeaponTypes = [''rifle'', ''missile'', ''pistol'', ''laser'', ''rocket'', ''repeater'',
     ''cannon'', ''melee'']"

definition EnemyTypes :: "string list" where
  "EnemyTypes = [''infantry'', ''devastator'', ''tank'']"

definition EnemyPartsConfig :: "(string \<times> string list) list" where
  "EnemyPartsConfig =
    [(''infantry'', [''head'', ''body'', ''arm'', ''leg'']),
     (''tank'', [''heat sink'', ''turret'', ''tread'', ''armor'']),
     (''devastator'', [''heavy armor'', ''head''])]"

definition EntityStats :: "(string \<times> int) list" where
  "EntityStats = [(''agent'', 100), (''infantry'', 50), (''devastator'', 150), (''tank'', 200)]"

record WeaponStat =
  damage :: int
  accuracy :: real

definition WeaponStats :: "(string \<times> WeaponStat) list" where
  "WeaponStats =
    [(''rifle'', \<lparr>damage = 10, accuracy = 8 / 10\<rparr>),
     (''missile'', \<lparr>damage = 30, accuracy = 6 / 10\<rparr>),
     (''pistol'', \<lparr>damage = 5, accuracy = 9 / 10\<rparr>),
     (''laser'', \<lparr>damage = 15, accuracy = 7 / 10\<rparr>),
     (''rocket'', \<lparr>damage = 40, accuracy = 5 / 10\<rparr>),
     (''repeater'', \<lparr>damage = 8, accuracy = 85 / 100\<rparr>),
     (''cannon'', \<lparr>damage = 50, accuracy = 4 / 10\<rparr>),
     (''melee'', \<lparr>damage = 20, accuracy = 1\<rparr>)]"

text \<open>Each range is the pair \<^verbatim>\<open>[min, max]\<close>; the code reads index 1, the maximum.\<close>

definition WeaponRangeConfig :: "(string \<times> real \<times> real) list" where
  "WeaponRangeConfig =
    [(''rifle'', 30, 60), (''missile'', 100, 150), (''pistol'', 10, 20), (''laser'', 50, 80),
     (''rocket'', 70, 120), (''repeater'', 40, 60), (''cannon'', 120, 180), (''melee'', 1, 1)]"

record TargetPreferences =
  primary :: "string list"
  specificTargets :: "(string \<times> string list) list option"

definition WeaponTargetConfig :: "(string \<times> TargetPreferences) list" where
  "WeaponTargetConfig =
    [(''rifle'', \<lparr>primary = [''devastator'', ''infantry''],
        specificTargets = Some [(''tank'', [''heat sink''])]\<rparr>),
     (''missile'', \<lparr>primary = [''tank'', ''devastator''], specificTargets = None\<rparr>),
     (''pistol'', \<lparr>primary = [''infantry''], specificTargets = None\<rparr>),
     (''laser'', \<lparr>primary = [''infantry'', ''devastator''],
        specificTargets = Some [(''tank'', [''turret''])]\<rparr>),
     (''rocket'', \<lparr>primary = [''tank''],
        specificTargets = Some [(''devastator'', [''heavy armor''])]\<rparr>),
     (''repeater'', \<lparr>primary = [''infantry'', ''devastator''], specificTargets = None\<rparr>),
     (''cannon'', \<lparr>primary = [''tank''], specificTargets = None\<rparr>),
     (''melee'', \<lparr>primary = [''agent'', ''enemy'', ''target-part''], specificTargets = None\<rparr>)]"

fun getWeaponColor :: "string \<Rightarrow> string" where
  "getWeaponColor wt =
    (if wt = ''rifle'' then ''red''
     else if wt = ''missile'' then ''blue''
     else if wt = ''pistol'' then ''green''
     else if wt = ''laser'' then ''purple''
     else if wt = ''rocket'' then ''orange''
     else if wt = ''repeater'' then ''brown''
     else if wt = ''cannon'' then ''black''
     else if wt = ''melee'' then ''gray''
     else ''gray'')"

section \<open>Damage resolution: hit probability\<close>

text \<open>
  \<^verbatim>\<open>WeaponRangeConfig["melee"][1]\<close> is a table lookup; a missing row would raise. The
  division is the division of the reals: a maximum range of 0, which no row of the table
  has, is outside the model.
\<close>

definition calculateHitProbability :: "real \<Rightarrow> real \<Rightarrow> real \<Rightarrow> error + real" where
  "calculateHitProbability distance maxRange acc =
    (case map_of WeaponRangeConfig ''melee'' of
       None \<Rightarrow> Inl TypeError
     | Some melee \<Rightarrow>
         if distance \<le> snd melee then Inr 1
         else let normalizedDistance = max 0 (min 1 (distance / maxRange))
              in Inr ((1 - normalizedDistance) * acc))"

section \<open>Weapon target assignment\<close>

definition andThen :: "error + 'a \<Rightarrow> ('a \<Rightarrow> error + 'b) \<Rightarrow> error + 'b" where
  "andThen r f = (case r of Inl e \<Rightarrow> Inl e | Inr v \<Rightarrow> f v)"

definition distanceBetween :: "PositionComponent \<Rightarrow> PositionComponent \<Rightarrow> real" where
  "distanceBetween a b = sqrt ((pos_x a - pos_x b)\<^sup>2 + (pos_y a - pos_y b)\<^sup>2)"

text \<open>
  \<^verbatim>\<open>Object.values(components.targeting).some(link => link.source === weaponId &&
  link.target === entity.id)\<close>
\<close>

definition alreadyTargeted :: "World \<Rightarrow> nat \<Rightarrow> nat \<Rightarrow> bool" where
  "alreadyTargeted s weaponId eid =
    list_ex (\<lambda>link. source link = weaponId \<and> target link = eid) (obj_values (targeting s))"

definition validTargetTypes :: "string \<Rightarrow> string list" where
  "validTargetTypes ownerType =
    (if ownerType = AGENT then [ENEMY, TARGET_PART]
     else if ownerType = ENEMY then [AGENT]
     else [])"

text \<open>
  The block guarded by \<^verbatim>\<open>if (target)\<close>, which the source repeats for primary and for
  specific targets: the distance from the owner's position to the candidate's position is
  tested against the weapon's maximum range. \<open>Inr (Some s')\<close> is the \<^verbatim>\<open>return\<close> after
  the link is written, \<open>Inr None\<close> falls through to the next loop iteration.
\<close>

definition assignIfInRange ::
  "nat \<Rightarrow> Entity \<Rightarrow> WeaponComponent \<Rightarrow> Entity \<Rightarrow> World \<Rightarrow> error + World option" where
  "assignIfInRange weaponId owner wpn tgt s =
    (case obj_get (position s) (entity_id owner) of
       None \<Rightarrow> Inl TypeError
     | Some sourcePosition \<Rightarrow>
        (case obj_get (position s) (entity_id tgt) of
           None \<Rightarrow> Inl TypeError
         | Some targetPosition \<Rightarrow>
            (case map_of WeaponRangeConfig (weaponType wpn) of
               None \<Rightarrow> Inl TypeError
             | Some weaponRange \<Rightarrow>
                if distanceBetween sourcePosition targetPosition \<le> snd weaponRange
                then Inr (Some (s\<lparr>targeting := obj_set (targeting s) weaponId
                       \<lparr>source = weaponId, target = entity_id tgt,
                        color = getWeaponColor (weaponType wpn), enabled = True\<rparr>\<rparr>))
                else Inr None)))"

fun assignPrimary ::
  "nat \<Rightarrow> Entity \<Rightarrow> WeaponComponent \<Rightarrow> string list \<Rightarrow> World \<Rightarrow> error + World option" where
  "assignPrimary weaponId owner wpn [] s = Inr None"
| "assignPrimary weaponId owner wpn (targetType # rest) s =
    (case find (\<lambda>e. entity_type e = targetType
                     \<and> \<not> alreadyTargeted s weaponId (entity_id e)) (entities s) of
       None \<Rightarrow> assignPrimary weaponId owner wpn rest s
     | Some tgt \<Rightarrow>
        (case assignIfInRange weaponId owner wpn tgt s of
           Inl e \<Rightarrow> Inl e
         | Inr (Some s') \<Rightarrow> Inr (Some s')
         | Inr None \<Rightarrow> assignPrimary weaponId owner wpn rest s))"

definition specificMatch :: "World \<Rightarrow> nat \<Rightarrow> string \<Rightarrow> string \<Rightarrow> Entity \<Rightarrow> bool" where
  "specificMatch s weaponId targetType specificTargetType e =
    (entity_type e = TARGET_PART
     \<and> (case entity_components_targetPartType e of
          None \<Rightarrow> False
        | Some tp \<Rightarrow> partType tp = specificTargetType \<and> parentEntityId tp = Str targetType)
     \<and> \<not> alreadyTargeted s weaponId (entity_id e))"

fun assignSpecificParts ::
  "nat \<Rightarrow> Entity \<Rightarrow> WeaponComponent \<Rightarrow> string \<Rightarrow> string list \<Rightarrow> World
    \<Rightarrow> error + World option" where
  "assignSpecificParts weaponId owner wpn targetType [] s = Inr None"
| "assignSpecificParts weaponId owner wpn targetType (specificTargetType # rest) s =
    (case find (specificMatch s weaponId targetType specificTargetType) (entities s) of
       None \<Rightarrow> assignSpecificParts weaponId owner wpn targetType rest s
     | Some tgt \<Rightarrow>
        (case assignIfInRange weaponId owner wpn tgt s of
           Inl e \<Rightarrow> Inl e
         | Inr (Some s') \<Rightarrow> Inr (Some s')
         | Inr None \<Rightarrow> assignSpecificParts weaponId owner wpn targetType rest s))"

fun assignSpecific ::
  "nat \<Rightarrow> Entity \<Rightarrow> WeaponComponent \<Rightarrow> (string \<times> string list) list \<Rightarrow> World
    \<Rightarrow> error + World option" where
  "assignSpecific weaponId owner wpn [] s = Inr None"
| "assignSpecific weaponId owner wpn ((targetType, specificTargets') # rest) s =
    (case assignSpecificParts weaponId owner wpn targetType specificTargets' s of
       Inl e \<Rightarrow> Inl e
     | Inr (Some s') \<Rightarrow> Inr (Some s')
     | Inr None \<Rightarrow> assignSpecific weaponId owner wpn rest s)"

definition assignWeaponToTarget :: "nat \<Rightarrow> Entity \<Rightarrow> World \<Rightarrow> error + World" where
  "assignWeaponToTarget weaponId owner s =
    (case obj_get (weapon s) weaponId of
       None \<Rightarrow> Inl TypeError
     | Some wpn \<Rightarrow>
        (case map_of WeaponTargetConfig (weaponType wpn) of
           None \<Rightarrow> Inr s
         | Some targetPreferences \<Rightarrow>
            (let filteredTargetTypes =
                   filter (\<lambda>t. t \<in> set (validTargetTypes (entity_type owner)))
                     (primary targetPreferences)
             in case assignPrimary weaponId owner wpn filteredTargetTypes s of
                  Inl e \<Rightarrow> Inl e
                | Inr (Some s') \<Rightarrow> Inr s'
                | Inr None \<Rightarrow>
                   (case specificTargets targetPreferences of
                      None \<Rightarrow> Inr s
                    | Some specifics \<Rightarrow>
                       (case assignSpecific weaponId owner wpn specifics s of
                          Inl e \<Rightarrow> Inl e
                        | Inr (Some s') \<Rightarrow> Inr s'
                        | Inr None \<Rightarrow> Inr s)))))"

text \<open>\<^verbatim>\<open>weaponIds.forEach\<close>: empty slots (\<^verbatim>\<open>null\<close>) are passed over.\<close>

fun assignWeapons :: "Entity \<Rightarrow> nat option list \<Rightarrow> World \<Rightarrow> error + World" where
  "assignWeapons owner [] s = Inr s"
| "assignWeapons owner (None # rest) s = assignWeapons owner rest s"
| "assignWeapons owner (Some weaponId # rest) s =
    (case assignWeaponToTarget weaponId owner s of
       Inl e \<Rightarrow> Inl e
     | Inr s' \<Rightarrow> assignWeapons owner rest s')"

definition assignAgentWeapons :: "Entity \<Rightarrow> World \<Rightarrow> error + World" where
  "assignAgentWeapons agent s =
    (case obj_get (weaponSlots s) (entity_id agent) of
       None \<Rightarrow> Inl TypeError
     | Some slots \<Rightarrow> assignWeapons agent (weaponIds slots) s)"

definition assignEnemyWeapons :: "Entity \<Rightarrow> World \<Rightarrow> error + World" where
  "assignEnemyWeapons enemy s =
    (case obj_get (weaponSlots s) (entity_id enemy) of
       None \<Rightarrow> Inl TypeError
     | Some slots \<Rightarrow> assignWeapons enemy (weaponIds slots) s)"

text \<open>The body of \<^verbatim>\<open>entities.forEach\<close> in \<^verbatim>\<open>WeaponAssignmentSystem.update\<close>.\<close>

definition assignEntity :: "Entity \<Rightarrow> World \<Rightarrow> error + World" where
  "assignEntity entity s =
    (if entity_type entity = AGENT \<and> agentTargetingEnabled s then assignAgentWeapons entity s
     else if entity_type entity = ENEMY \<and> enemyTargetingEnabled s
       then assignEnemyWeapons entity s
     else Inr s)"

fun assignEntities :: "Entity list \<Rightarrow> World \<Rightarrow> error + World" where
  "assignEntities [] s = Inr s"
| "assignEntities (entity # rest) s =
    (case assignEntity entity s of
       Inl e \<Rightarrow> Inl e
     | Inr s' \<Rightarrow> assignEntities rest s')"

definition WeaponAssignmentSystem_update :: "World \<Rightarrow> error + World" where
  "WeaponAssignmentSystem_update s = assignEntities (entities s) (s\<lparr>targeting := []\<rparr>)"

section \<open>Damage resolution\<close>

text \<open>
  \<^verbatim>\<open>entities.splice(entities.indexOf(entity), 1)\<close> removes the entity, or the last element
  when \<^verbatim>\<open>indexOf\<close> answers -1; then every component category loses the entry under the
  entity's id (each stored component is an object, hence truthy).
\<close>

definition killEntity :: "Entity \<Rightarrow> World \<Rightarrow> World" where
  "killEntity entity s =
    s\<lparr>entities := (if entity \<in> set (entities s) then remove1 entity (entities s)
                    else butlast (entities s)),
      position := obj_delete (position s) (entity_id entity),
      health := obj_delete (health s) (entity_id entity),
      weaponSlots := obj_delete (weaponSlots s) (entity_id entity),
      weapon := obj_delete (weapon s) (entity_id entity),
      enemyType := obj_delete (enemyType s) (entity_id entity),
      targetPartType := obj_delete (targetPartType s) (entity_id entity),
      targeting := obj_delete (targeting s) (entity_id entity)\<rparr>"

text \<open>
  The hit and its consequences, once weapon and target are resolved. The \<open>n\<close>-th call of
  \<^verbatim>\<open>Math.random()\<close> returns \<open>rnd n\<close>.
\<close>

definition applyHit ::
  "(nat \<Rightarrow> real) \<Rightarrow> TargetingComponent \<Rightarrow> WeaponComponent \<Rightarrow> Entity \<Rightarrow> World
    \<Rightarrow> error + World" where
  "applyHit rnd link wpn tgt s =
    (case map_of WeaponStats (weaponType wpn) of
       None \<Rightarrow> Inl TypeError
     | Some weaponStats \<Rightarrow>
    (case obj_get (position s) (source link) of
       None \<Rightarrow> Inl TypeError
     | Some sourcePosition \<Rightarrow>
    (case obj_get (position s) (entity_id tgt) of
       None \<Rightarrow> Inl TypeError
     | Some targetPosition \<Rightarrow>
    (case map_of WeaponRangeConfig (weaponType wpn) of
       None \<Rightarrow> Inl TypeError
     | Some weaponRange \<Rightarrow>
    (case calculateHitProbability (distanceBetween sourcePosition targetPosition)
            (snd weaponRange) (accuracy weaponStats) of
       Inl e \<Rightarrow> Inl e
     | Inr hitProbability \<Rightarrow>
        (let r = rnd (randomCalls s);
             s1 = s\<lparr>randomCalls := Suc (randomCalls s)\<rparr>
         in if r < hitProbability
            then (case obj_get (health s1) (entity_id tgt) of
                    None \<Rightarrow> Inl TypeError
                  | Some targetHealth \<Rightarrow>
                     (let v = health_value targetHealth - damage weaponStats;
                          s2 = s1\<lparr>health := obj_set (health s1) (entity_id tgt)
                                   (targetHealth\<lparr>health_value := v\<rparr>)\<rparr>
                      in if v \<le> 0 then Inr (killEntity tgt s2) else Inr s2))
            else Inr s1))))))"

text \<open>
  The body of \<^verbatim>\<open>for (const weaponId in components.targeting)\<close>. A key deleted earlier in
  the pass is not visited.
\<close>

definition resolveLink :: "(nat \<Rightarrow> real) \<Rightarrow> nat \<Rightarrow> World \<Rightarrow> error + World" where
  "resolveLink rnd weaponId s =
    (case obj_get (targeting s) weaponId of
       None \<Rightarrow> Inr s
     | Some link \<Rightarrow>
        if enabled link
        then (case obj_get (weapon s) weaponId of
                None \<Rightarrow> Inr s
              | Some wpn \<Rightarrow>
                 (case find (\<lambda>e. entity_id e = target link) (entities s) of
                    None \<Rightarrow> Inr s
                  | Some tgt \<Rightarrow> applyHit rnd link wpn tgt s))
        else Inr s)"

fun resolveLinks :: "(nat \<Rightarrow> real) \<Rightarrow> nat list \<Rightarrow> World \<Rightarrow> error + World" where
  "resolveLinks rnd [] s = Inr s"
| "resolveLinks rnd (weaponId # rest) s =
    (case resolveLink rnd weaponId s of
       Inl e \<Rightarrow> Inl e
     | Inr s' \<Rightarrow> resolveLinks rnd rest s')"

definition DamageSystem_update :: "(nat \<Rightarrow> real) \<Rightarrow> World \<Rightarrow> error + World" where
  "DamageSystem_update rnd s = resolveLinks rnd (obj_keys (targeting s)) s"

text \<open>
  \<^verbatim>\<open>EntityComponentSystem.update\<close>: the registered systems in order, assignment then
  damage.
\<close>

definition EntityComponentSystem_update :: "(nat \<Rightarrow> real) \<Rightarrow> World \<Rightarrow> error + World" where
  "EntityComponentSystem_update rnd s =
    andThen (WeaponAssignmentSystem_update s) (DamageSystem_update rnd)"

section \<open>Spawn helpers and the command surface\<close>

text \<open>\<^verbatim>\<open>Math.random()\<close>: the next value of the stream, and the call counted.\<close>

definition random :: "(nat \<Rightarrow> real) \<Rightarrow> World \<Rightarrow> real \<times> World" where
  "random rnd s = (rnd (randomCalls s), s\<lparr>randomCalls := Suc (randomCalls s)\<rparr>)"

text \<open>
  \<^verbatim>\<open>Table[Math.floor(r * Table.length)]\<close>. An index outside the array reads
  \<^verbatim>\<open>undefined\<close>, which every later table lookup turns into the property name
  \<^verbatim>\<open>"undefined"\<close>.
\<close>

definition pick :: "string list \<Rightarrow> real \<Rightarrow> string" where
  "pick table r =
    (let i = \<lfloor>r * real (length table)\<rfloor>
     in if 0 \<le> i \<and> i < int (length table) then table ! nat i else ''undefined'')"

definition addEntity :: "string \<Rightarrow> World \<Rightarrow> nat \<times> World" where
  "addEntity ty s =
    (nodeId s,
     s\<lparr>entities := entities s @
          [\<lparr>entity_id = nodeId s, entity_type = ty, entity_components_targetPartType = None\<rparr>],
       nodeId := Suc (nodeId s)\<rparr>)"

text \<open>
  \<^verbatim>\<open>WeaponSlotsComponent.addWeapon\<close>: the first \<^verbatim>\<open>null\<close> slot takes the weapon;
  \<open>None\<close> when the loop ends without finding one.
\<close>

fun fillFirstEmpty :: "nat option list \<Rightarrow> nat \<Rightarrow> nat option list option" where
  "fillFirstEmpty [] weaponId = None"
| "fillFirstEmpty (None # rest) weaponId = Some (Some weaponId # rest)"
| "fillFirstEmpty (Some w # rest) weaponId =
    (case fillFirstEmpty rest weaponId of
       None \<Rightarrow> None
     | Some rest' \<Rightarrow> Some (Some w # rest'))"

text \<open>The result is the component after the call and the lines given to \<^verbatim>\<open>console.warn\<close>.\<close>

definition addWeapon ::
  "WeaponSlotsComponent \<Rightarrow> nat \<Rightarrow> WeaponSlotsComponent \<times> string list" where
  "addWeapon slots weaponId =
    (case fillFirstEmpty (weaponIds slots) weaponId of
       Some ids \<Rightarrow> (slots\<lparr>weaponIds := ids\<rparr>, [])
     | None \<Rightarrow> (slots, [''Entity has no available weapon slots.'']))"

definition addWeaponToEntity :: "nat \<Rightarrow> string \<Rightarrow> World \<Rightarrow> error + World" where
  "addWeaponToEntity entityId wt s =
    (let weaponId = nodeId s;
         s1 = s\<lparr>nodeId := Suc (nodeId s)\<rparr>;
         s2 = s1\<lparr>weapon := obj_set (weapon s1) weaponId \<lparr>weaponType = wt\<rparr>\<rparr>
     in case obj_get (position s2) entityId of
          None \<Rightarrow> Inl TypeError
        | Some p \<Rightarrow>
           (let s3 = s2\<lparr>position := obj_set (position s2) weaponId
                           \<lparr>pos_x = pos_x p + 10, pos_y = pos_y p + 10\<rparr>\<rparr>
            in case obj_get (weaponSlots s3) entityId of
                 None \<Rightarrow> Inl TypeError
               | Some slots \<Rightarrow>
                  (let (slots', warnings) = addWeapon slots weaponId
                   in Inr (s3\<lparr>weaponSlots := obj_set (weaponSlots s3) entityId slots',
                              console := console s3 @ warnings\<rparr>))))"

definition addTargetPartToEntity :: "(nat \<Rightarrow> real) \<Rightarrow> nat \<Rightarrow> string \<Rightarrow> World \<Rightarrow> World" where
  "addTargetPartToEntity rnd enemyId pt s =
    (let partId = nodeId s;
         s1 = s\<lparr>nodeId := Suc (nodeId s)\<rparr>;
         (rx, s2) = random rnd s1;
         (ry, s3) = random rnd s2;
         s4 = s3\<lparr>position := obj_set (position s3) partId
                    \<lparr>pos_x = rx * 800, pos_y = ry * 600\<rparr>\<rparr>;
         s5 = s4\<lparr>health := obj_set (health s4) partId \<lparr>health_value = 10\<rparr>\<rparr>
     in s5\<lparr>targetPartType := obj_set (targetPartType s5) partId
             \<lparr>partType = pt, parentEntityId = Num enemyId\<rparr>\<rparr>)"

fun addTargetParts :: "(nat \<Rightarrow> real) \<Rightarrow> nat \<Rightarrow> string list \<Rightarrow> World \<Rightarrow> World" where
  "addTargetParts rnd enemyId [] s = s"
| "addTargetParts rnd enemyId (pt # rest) s =
    addTargetParts rnd enemyId rest (addTargetPartToEntity rnd enemyId pt s)"

definition addAgent :: "(nat \<Rightarrow> real) \<Rightarrow> World \<Rightarrow> error + World" where
  "addAgent rnd s =
    (let (agentId, s1) = addEntity AGENT s;
         (rx, s2) = random rnd s1;
         (ry, s3) = random rnd s2;
         s4 = s3\<lparr>position := obj_set (position s3) agentId
                    \<lparr>pos_x = rx * 800, pos_y = ry * 600\<rparr>\<rparr>
     in case map_of EntityStats ''agent'' of
          None \<Rightarrow> Inl TypeError
        | Some h \<Rightarrow>
           (let s5 = s4\<lparr>health := obj_set (health s4) agentId \<lparr>health_value = h\<rparr>\<rparr>;
                s6 = s5\<lparr>weaponSlots := obj_set (weaponSlots s5) agentId
                           \<lparr>weaponIds = replicate 7 None\<rparr>\<rparr>
            in andThen (addWeaponToEntity agentId ''rifle'' s6)
                 (\<lambda>s7. let (r, s8) = random rnd s7
                       in addWeaponToEntity agentId (pick WeaponTypes r) s8)))"

text \<open>\<^verbatim>\<open>weaponSlots.weaponIds.some(id => id === null)\<close> on the enemy's slots.\<close>

definition hasEmptySlot :: "nat \<Rightarrow> World \<Rightarrow> bool" where
  "hasEmptySlot entityId s =
    (case obj_get (weaponSlots s) entityId of
       None \<Rightarrow> False
     | Some slots \<Rightarrow> list_ex (\<lambda>w. w = None) (weaponIds slots))"

definition addWeaponIf :: "bool \<Rightarrow> nat \<Rightarrow> string \<Rightarrow> World \<Rightarrow> error + World" where
  "addWeaponIf c entityId wt s = (if c then addWeaponToEntity entityId wt s else Inr s)"

definition addEnemy :: "(nat \<Rightarrow> real) \<Rightarrow> World \<Rightarrow> error + World" where
  "addEnemy rnd s =
    (let (r, s0) = random rnd s;
         enemyTypeChoice = pick EnemyTypes r;
         (enemyId, s1) = addEntity ENEMY s0;
         (rx, s2) = random rnd s1;
         (ry, s3) = random rnd s2;
         s4 = s3\<lparr>position := obj_set (position s3) enemyId
                    \<lparr>pos_x = rx * 800, pos_y = ry * 600\<rparr>\<rparr>
     in case map_of EntityStats enemyTypeChoice of
          None \<Rightarrow> Inl TypeError
        | Some h \<Rightarrow>
           (let s5 = s4\<lparr>health := obj_set (health s4) enemyId \<lparr>health_value = h\<rparr>\<rparr>;
                s6 = s5\<lparr>enemyType := obj_set (enemyType s5) enemyId
                           \<lparr>enemy_type = enemyTypeChoice\<rparr>\<rparr>;
                s7 = s6\<lparr>weaponSlots := obj_set (weaponSlots s6) enemyId
                           \<lparr>weaponIds = replicate 2 None\<rparr>\<rparr>
            in andThen (addWeaponIf (hasEmptySlot enemyId s7) enemyId ''laser'' s7)
                 (\<lambda>s8. andThen
                    (addWeaponIf (hasEmptySlot enemyId s8 \<and> enemyTypeChoice = ''devastator'')
                       enemyId ''rocket'' s8)
                 (\<lambda>s9. andThen
                    (addWeaponIf (hasEmptySlot enemyId s9 \<and> enemyTypeChoice = ''tank'')
                       enemyId ''cannon'' s9)
                 (\<lambda>s10. andThen
                    (addWeaponIf (hasEmptySlot enemyId s10) enemyId ''melee'' s10)
                 (\<lambda>s11. Inr (addTargetParts rnd enemyId
                     (case map_of EnemyPartsConfig enemyTypeChoice of
                        None \<Rightarrow> [] | Some parts \<Rightarrow> parts) s11)))))))"

definition toggleEnemyTargeting :: "World \<Rightarrow> World" where
  "toggleEnemyTargeting s =
    (let s1 = s\<lparr>enemyTargetingEnabled := \<not> enemyTargetingEnabled s\<rparr>
     in s1\<lparr>console := console s1 @
          [''Enemy Targeting: '' @ (if enemyTargetingEnabled s1 then ''ON'' else ''OFF'')]\<rparr>)"

definition toggleAgentTargeting :: "World \<Rightarrow> World" where
  "toggleAgentTargeting s =
    (let s1 = s\<lparr>agentTargetingEnabled := \<not> agentTargetingEnabled s\<rparr>
     in s1\<lparr>console := console s1 @
          [''Agent Targeting: '' @ (if agentTargetingEnabled s1 then ''ON'' else ''OFF'')]\<rparr>)"

text \<open>The state built by the constructor and the two flag declarations.\<close>

definition initialWorld :: World where
  "initialWorld =
    \<lparr>entities = [], position = [], health = [], weaponSlots = [], weapon = [],
     enemyType = [], targetPartType = [], targeting = [], nodeId = 0,
     enemyTargetingEnabled = True, agentTargetingEnabled = True, console = [],
     randomCalls = 0\<rparr>"

text \<open>
  The states the program can be in: the initial one, and whatever the command surface
  and the simulation step make of a reachable state without raising.
\<close>

inductive reachable :: "(nat \<Rightarrow> real) \<Rightarrow> World \<Rightarrow> bool" for rnd :: "nat \<Rightarrow> real" where
  reachable_initial: "reachable rnd initialWorld"
| reachable_addAgent: "reachable rnd s \<Longrightarrow> addAgent rnd s = Inr s' \<Longrightarrow> reachable rnd s'"
| reachable_addEnemy: "reachable rnd s \<Longrightarrow> addEnemy rnd s = Inr s' \<Longrightarrow> reachable rnd s'"
| reachable_toggleEnemy: "reachable rnd s \<Longrightarrow> reachable rnd (toggleEnemyTargeting s)"
| reachable_toggleAgent: "reachable rnd s \<Longrightarrow> reachable rnd (toggleAgentTargeting s)"
| reachable_update:
    "reachable rnd s \<Longrightarrow> EntityComponentSystem_update rnd s = Inr s' \<Longrightarrow> reachable rnd s'"

section \<open>Predicates of the properties\<close>

text \<open>The targeting flag of the owner's class is on.\<close>

definition ownerEnabled :: "World \<Rightarrow> Entity \<Rightarrow> bool" where
  "ownerEnabled s e =
    ((entity_type e = AGENT \<and> agentTargetingEnabled s)
     \<or> (entity_type e = ENEMY \<and> enemyTargetingEnabled s))"

text \<open>
  An entry \<open>(k, link)\<close> that a pass over the store \<open>s\<close> can have written: an enabled
  link from weapon \<open>k\<close>, which sits in a slot of an entity whose class flag is on, to the
  id of an entity of the store.
\<close>

definition writtenByPass :: "World \<Rightarrow> nat \<Rightarrow> TargetingComponent \<Rightarrow> bool" where
  "writtenByPass s k link =
    (source link = k \<and> enabled link
     \<and> list_ex (\<lambda>owner. ownerEnabled s owner
          \<and> (case obj_get (weaponSlots s) (entity_id owner) of
                None \<Rightarrow> False
              | Some slots \<Rightarrow> Some k \<in> set (weaponIds slots))) (entities s)
     \<and> list_ex (\<lambda>tgt. entity_id tgt = target link) (entities s))"

text \<open>Every link is stored under its own source weapon, in a well-formed object.\<close>

definition linksKeyed :: "TargetingComponent obj \<Rightarrow> bool" where
  "linksKeyed t = (obj_wf t \<and> list_all (\<lambda>p. source (snd p) = fst p) t)"

text \<open>No weapon id is the source of two enabled links.\<close>

definition oneLinkPerWeapon :: "TargetingComponent obj \<Rightarrow> bool" where
  "oneLinkPerWeapon t = distinct (map source (filter enabled (obj_values t)))"

text \<open>The link \<^verbatim>\<open>new TargetingComponent(weaponId, target.id, color, true)\<close>.\<close>

definition newLink :: "nat \<Rightarrow> WeaponComponent \<Rightarrow> Entity \<Rightarrow> TargetingComponent" where
  "newLink w wpn tgt =
    \<lparr>source = w, target = entity_id tgt, color = getWeaponColor (weaponType wpn),
     enabled = True\<rparr>"

text \<open>Two states that differ at most in the targeting category.\<close>

definition sameStore :: "World \<Rightarrow> World \<Rightarrow> bool" where
  "sameStore s t = (t\<lparr>targeting := []\<rparr> = s\<lparr>targeting := []\<rparr>)"

text \<open>What holds of every intermediate state \<open>t\<close> of an assignment pass over \<open>s\<close>.\<close>

definition passInvariant :: "World \<Rightarrow> World \<Rightarrow> bool" where
  "passInvariant s t =
    (sameStore s t \<and> linksKeyed (targeting t)
     \<and> list_all (\<lambda>p. writtenByPass s (fst p) (snd p)) (targeting t))"

text \<open>
  The candidate of one preference type, in the spec's words: the first entity of that
  type, in creation order, that this weapon does not already target.
\<close>

definition primaryCandidate :: "World \<Rightarrow> nat \<Rightarrow> string \<Rightarrow> Entity option" where
  "primaryCandidate s w t =
    find (\<lambda>e. entity_type e = t \<and> \<not> alreadyTargeted s w (entity_id e)) (entities s)"

text \<open>
  The range test of the spec: the Euclidean distance between the owner's position and
  the candidate's is within the weapon's maximum range.
\<close>

definition inRangeOf :: "World \<Rightarrow> Entity \<Rightarrow> WeaponComponent \<Rightarrow> Entity \<Rightarrow> bool" where
  "inRangeOf s owner wpn e =
    (case obj_get (position s) (entity_id owner) of
       None \<Rightarrow> False
     | Some a \<Rightarrow>
        (case obj_get (position s) (entity_id e) of
           None \<Rightarrow> False
         | Some b \<Rightarrow>
            (case map_of WeaponRangeConfig (weaponType wpn) of
               None \<Rightarrow> False
             | Some r \<Rightarrow> distanceBetween a b \<le> snd r)))"

text \<open>
  The primary target in the spec's words: the preference list is filtered to the owner's
  valid opposing classes; each surviving type, in list order, contributes its candidate;
  the first candidate in range is chosen.
\<close>

definition primaryChoice ::
  "World \<Rightarrow> nat \<Rightarrow> Entity \<Rightarrow> WeaponComponent \<Rightarrow> TargetPreferences \<Rightarrow> Entity option" where
  "primaryChoice s w owner wpn prefs =
    find (inRangeOf s owner wpn)
      (List.map_filter (primaryCandidate s w)
        (filter (\<lambda>t. t \<in> set (validTargetTypes (entity_type owner))) (primary prefs)))"

text \<open>
  The state after \<^verbatim>\<open>Math.random()\<close> and \<^verbatim>\<open>targetHealth.value -= weaponStats.damage\<close>.
\<close>

definition afterHit :: "World \<Rightarrow> Entity \<Rightarrow> HealthComponent \<Rightarrow> int \<Rightarrow> World" where
  "afterHit s tgt h v =
    s\<lparr>randomCalls := Suc (randomCalls s),
      health := obj_set (health s) (entity_id tgt) (h\<lparr>health_value := v\<rparr>)\<rparr>"

text \<open>
  No component category holds an entry under the id.
\<close>

definition purged :: "World \<Rightarrow> nat \<Rightarrow> bool" where
  "purged s i =
    (obj_get (position s) i = None \<and> obj_get (health s) i = None
     \<and> obj_get (weaponSlots s) i = None \<and> obj_get (weapon s) i = None
     \<and> obj_get (enemyType s) i = None \<and> obj_get (targetPartType s) i = None
     \<and> obj_get (targeting s) i = None)"

text \<open>
  Entity ids are pairwise distinct and every entity of the store has a health above zero:
  no entity with a health of zero or below is in the store.
\<close>

definition allAlive :: "World \<Rightarrow> bool" where
  "allAlive s =
    (distinct (map entity_id (entities s))
     \<and> list_all (\<lambda>e. case obj_get (health s) (entity_id e) of
                        None \<Rightarrow> False
                      | Some h \<Rightarrow> 0 < health_value h) (entities s))"

text \<open>
  Every entity of \<open>s\<close> is still an entity of \<open>s'\<close>, or its id is purged in \<open>s'\<close>.
\<close>

definition removedArePurged :: "World \<Rightarrow> World \<Rightarrow> bool" where
  "removedArePurged s s' =
    list_all (\<lambda>e. e \<in> set (entities s') \<or> purged s' (entity_id e)) (entities s)"

text \<open>
  The state \<^verbatim>\<open>addWeaponToEntity\<close> returns for an owner with position \<open>p\<close> and slots
  \<open>slots\<close>.
\<close>

definition weaponAdded ::
  "nat \<Rightarrow> string \<Rightarrow> PositionComponent \<Rightarrow> WeaponSlotsComponent \<Rightarrow> World \<Rightarrow> World" where
  "weaponAdded entityId wt p slots s =
    s\<lparr>nodeId := Suc (nodeId s),
      weapon := obj_set (weapon s) (nodeId s) \<lparr>weaponType = wt\<rparr>,
      position := obj_set (position s) (nodeId s)
         \<lparr>pos_x = pos_x p + 10, pos_y = pos_y p + 10\<rparr>,
      weaponSlots := obj_set (weaponSlots s) entityId (fst (addWeapon slots (nodeId s))),
      console := console s @ snd (addWeapon slots (nodeId s))\<rparr>"

text \<open>
  The state \<^verbatim>\<open>api.addAgent\<close> builds before it adds weapons: the entity, its position from
  two draws, full health and seven empty slots.
\<close>

definition agentShell :: "(nat \<Rightarrow> real) \<Rightarrow> World \<Rightarrow> World" where
  "agentShell rnd s =
    s\<lparr>entities := entities s @
         [\<lparr>entity_id = nodeId s, entity_type = AGENT, entity_components_targetPartType = None\<rparr>],
      nodeId := Suc (nodeId s),
      randomCalls := Suc (Suc (randomCalls s)),
      position := obj_set (position s) (nodeId s)
         \<lparr>pos_x = rnd (randomCalls s) * 800, pos_y = rnd (Suc (randomCalls s)) * 600\<rparr>,
      health := obj_set (health s) (nodeId s) \<lparr>health_value = 100\<rparr>,
      weaponSlots := obj_set (weaponSlots s) (nodeId s) \<lparr>weaponIds = replicate 7 None\<rparr>\<rparr>"

text \<open>
  The state \<^verbatim>\<open>api.addEnemy\<close> builds before it adds weapons, for an enemy type with base
  health \<open>h\<close>: one draw for the type, the entity, two draws for the position, the health,
  the type component and two empty slots.
\<close>

definition enemyShell :: "(nat \<Rightarrow> real) \<Rightarrow> World \<Rightarrow> int \<Rightarrow> World" where
  "enemyShell rnd s h =
    s\<lparr>entities := entities s @
         [\<lparr>entity_id = nodeId s, entity_type = ENEMY, entity_components_targetPartType = None\<rparr>],
      nodeId := Suc (nodeId s),
      randomCalls := Suc (Suc (Suc (randomCalls s))),
      position := obj_set (position s) (nodeId s)
         \<lparr>pos_x = rnd (Suc (randomCalls s)) * 800,
          pos_y = rnd (Suc (Suc (randomCalls s))) * 600\<rparr>,
      health := obj_set (health s) (nodeId s) \<lparr>health_value = h\<rparr>,
      enemyType := obj_set (enemyType s) (nodeId s)
         \<lparr>enemy_type = pick EnemyTypes (rnd (randomCalls s))\<rparr>,
      weaponSlots := obj_set (weaponSlots s) (nodeId s) \<lparr>weaponIds = replicate 2 None\<rparr>\<rparr>"

text \<open>
  Every record of the entity list is an agent or an enemy.
\<close>

definition onlyAgentsAndEnemies :: "World \<Rightarrow> bool" where
  "onlyAgentsAndEnemies s =
    list_all (\<lambda>e. entity_type e = AGENT \<or> entity_type e = ENEMY) (entities s)"

text \<open>
  The slot count given at creation: 7 for an agent, 2 for an enemy.
\<close>

definition slotCapacity :: "string \<Rightarrow> nat" where
  "slotCapacity ty = (if ty = AGENT then 7 else if ty = ENEMY then 2 else 0)"

text \<open>
  Every entity with a weapon-slots component has as many slots as its class was created
  with, and no more weapons than that.
\<close>

definition slotsWithinCapacity :: "World \<Rightarrow> bool" where
  "slotsWithinCapacity s =
    list_all (\<lambda>e. case obj_get (weaponSlots s) (entity_id e) of
                    None \<Rightarrow> True
                  | Some slots \<Rightarrow>
                      length (weaponIds slots) = slotCapacity (entity_type e)
                      \<and> length (filter (\<lambda>w. w \<noteq> None) (weaponIds slots))
                          \<le> slotCapacity (entity_type e)) (entities s)"

text \<open>
  Every entity id was handed out by the counter.
\<close>

definition idsBelowCounter :: "World \<Rightarrow> bool" where
  "idsBelowCounter s = list_all (\<lambda>e. entity_id e < nodeId s) (entities s)"

text \<open>
  The invariant carried through every operation of the program.
\<close>

definition reachInvariant :: "World \<Rightarrow> bool" where
  "reachInvariant s = (onlyAgentsAndEnemies s \<and> idsBelowCounter s \<and> slotsWithinCapacity s)"

section \<open>Concrete states\<close>

text \<open>
  A stream of random draws: the third draw, which picks the agent's second weapon, selects
  index 7 (melee); every other draw is 0.
\<close>

definition rndA :: "nat \<Rightarrow> real" where
  "rndA n = (if n = 2 then 7 / 8 else 0)"

text \<open>The entity records of the concrete states.\<close>

definition agent0 :: Entity where
  "agent0 = \<lparr>entity_id = 0, entity_type = ''agent'', entity_components_targetPartType = None\<rparr>"

definition enemy3 :: Entity where
  "enemy3 = \<lparr>entity_id = 3, entity_type = ''enemy'', entity_components_targetPartType = None\<rparr>"

definition enemy10 :: Entity where
  "enemy10 = \<lparr>entity_id = 10, entity_type = ''enemy'', entity_components_targetPartType = None\<rparr>"

text \<open>
  The row of \<^verbatim>\<open>WeaponTargetConfig\<close> for the melee weapon.
\<close>

definition meleePreferences :: TargetPreferences where
  "meleePreferences =
    \<lparr>primary = [''agent'', ''enemy'', ''target-part''], specificTargets = None\<rparr>"

text \<open>\<^verbatim>\<open>api.addAgent()\<close> on the initial state, with the draws of \<open>rndA\<close>.\<close>

definition agentWorld :: World where
  "agentWorld =
    \<lparr>entities =
       [\<lparr>entity_id = 0, entity_type = ''agent'', entity_components_targetPartType = None\<rparr>],
     position =
       [(0, \<lparr>pos_x = 0, pos_y = 0\<rparr>), (1, \<lparr>pos_x = 10, pos_y = 10\<rparr>),
        (2, \<lparr>pos_x = 10, pos_y = 10\<rparr>)],
     health = [(0, \<lparr>health_value = 100\<rparr>)],
     weaponSlots = [(0, \<lparr>weaponIds = [Some 1, Some 2, None, None, None, None, None]\<rparr>)],
     weapon = [(1, \<lparr>weaponType = ''rifle''\<rparr>), (2, \<lparr>weaponType = ''melee''\<rparr>)],
     enemyType = [], targetPartType = [], targeting = [], nodeId = 3,
     enemyTargetingEnabled = True, agentTargetingEnabled = True, console = [],
     randomCalls = 3\<rparr>"

text \<open>
  \<^verbatim>\<open>api.addAgent(); api.addEnemy()\<close> with the draws of \<open>rndA\<close>: an agent with a rifle
  (id 1) and a melee weapon (id 2), and an infantry enemy (id 3) with a laser (id 4), a
  melee weapon (id 5) and four parts (ids 6 to 9), all at the origin.
\<close>

definition duelWorld :: World where
  "duelWorld =
    \<lparr>entities =
       [\<lparr>entity_id = 0, entity_type = ''agent'', entity_components_targetPartType = None\<rparr>,
        \<lparr>entity_id = 3, entity_type = ''enemy'', entity_components_targetPartType = None\<rparr>],
     position =
       [(0, \<lparr>pos_x = 0, pos_y = 0\<rparr>), (1, \<lparr>pos_x = 10, pos_y = 10\<rparr>),
        (2, \<lparr>pos_x = 10, pos_y = 10\<rparr>), (3, \<lparr>pos_x = 0, pos_y = 0\<rparr>),
        (4, \<lparr>pos_x = 10, pos_y = 10\<rparr>), (5, \<lparr>pos_x = 10, pos_y = 10\<rparr>),
        (6, \<lparr>pos_x = 0, pos_y = 0\<rparr>), (7, \<lparr>pos_x = 0, pos_y = 0\<rparr>),
        (8, \<lparr>pos_x = 0, pos_y = 0\<rparr>), (9, \<lparr>pos_x = 0, pos_y = 0\<rparr>)],
     health =
       [(0, \<lparr>health_value = 100\<rparr>), (3, \<lparr>health_value = 50\<rparr>),
        (6, \<lparr>health_value = 10\<rparr>), (7, \<lparr>health_value = 10\<rparr>),
        (8, \<lparr>health_value = 10\<rparr>), (9, \<lparr>health_value = 10\<rparr>)],
     weaponSlots =
       [(0, \<lparr>weaponIds = [Some 1, Some 2, None, None, None, None, None]\<rparr>),
        (3, \<lparr>weaponIds = [Some 4, Some 5]\<rparr>)],
     weapon =
       [(1, \<lparr>weaponType = ''rifle''\<rparr>), (2, \<lparr>weaponType = ''melee''\<rparr>),
        (4, \<lparr>weaponType = ''laser''\<rparr>), (5, \<lparr>weaponType = ''melee''\<rparr>)],
     enemyType = [(3, \<lparr>enemy_type = ''infantry''\<rparr>)],
     targetPartType =
       [(6, \<lparr>partType = ''head'', parentEntityId = Num 3\<rparr>),
        (7, \<lparr>partType = ''body'', parentEntityId = Num 3\<rparr>),
        (8, \<lparr>partType = ''arm'', parentEntityId = Num 3\<rparr>),
        (9, \<lparr>partType = ''leg'', parentEntityId = Num 3\<rparr>)],
     targeting = [], nodeId = 10, enemyTargetingEnabled = True,
     agentTargetingEnabled = True, console = [], randomCalls = 14\<rparr>"

text \<open>The links an assignment pass writes in \<open>duelWorld\<close>: the two melee weapons.\<close>

definition duelLinks :: "TargetingComponent obj" where
  "duelLinks =
    [(2, \<lparr>source = 2, target = 3, color = ''gray'', enabled = True\<rparr>),
     (5, \<lparr>source = 5, target = 0, color = ''gray'', enabled = True\<rparr>)]"

text \<open>Links left by an earlier tick, between ids that mean nothing in \<open>duelWorld\<close>.\<close>

definition staleLinks :: "TargetingComponent obj" where
  "staleLinks =
    [(1, \<lparr>source = 1, target = 3, color = ''red'', enabled = True\<rparr>),
     (40, \<lparr>source = 40, target = 41, color = ''blue'', enabled = True\<rparr>)]"

text \<open>
  A stream of draws that gives the agent a melee weapon and puts the first enemy at
  (400, 0); every other draw is 0.
\<close>

definition rndB :: "nat \<Rightarrow> real" where
  "rndB n = (if n = 2 then 7 / 8 else if n = 4 then 1 / 2 else 0)"

text \<open>
  \<^verbatim>\<open>api.addAgent(); api.addEnemy()\<close> with the draws of \<open>rndB\<close>: the infantry enemy
  (id 3) stands at (400, 0).
\<close>

definition farEnemyWorld :: World where
  "farEnemyWorld =
    \<lparr>entities = [agent0, enemy3],
     position =
       [(0, \<lparr>pos_x = 0, pos_y = 0\<rparr>), (1, \<lparr>pos_x = 10, pos_y = 10\<rparr>),
        (2, \<lparr>pos_x = 10, pos_y = 10\<rparr>), (3, \<lparr>pos_x = 400, pos_y = 0\<rparr>),
        (4, \<lparr>pos_x = 410, pos_y = 10\<rparr>), (5, \<lparr>pos_x = 410, pos_y = 10\<rparr>),
        (6, \<lparr>pos_x = 0, pos_y = 0\<rparr>), (7, \<lparr>pos_x = 0, pos_y = 0\<rparr>),
        (8, \<lparr>pos_x = 0, pos_y = 0\<rparr>), (9, \<lparr>pos_x = 0, pos_y = 0\<rparr>)],
     health =
       [(0, \<lparr>health_value = 100\<rparr>), (3, \<lparr>health_value = 50\<rparr>),
        (6, \<lparr>health_value = 10\<rparr>), (7, \<lparr>health_value = 10\<rparr>),
        (8, \<lparr>health_value = 10\<rparr>), (9, \<lparr>health_value = 10\<rparr>)],
     weaponSlots =
       [(0, \<lparr>weaponIds = [Some 1, Some 2, None, None, None, None, None]\<rparr>),
        (3, \<lparr>weaponIds = [Some 4, Some 5]\<rparr>)],
     weapon =
       [(1, \<lparr>weaponType = ''rifle''\<rparr>), (2, \<lparr>weaponType = ''melee''\<rparr>),
        (4, \<lparr>weaponType = ''laser''\<rparr>), (5, \<lparr>weaponType = ''melee''\<rparr>)],
     enemyType = [(3, \<lparr>enemy_type = ''infantry''\<rparr>)],
     targetPartType =
       [(6, \<lparr>partType = ''head'', parentEntityId = Num 3\<rparr>),
        (7, \<lparr>partType = ''body'', parentEntityId = Num 3\<rparr>),
        (8, \<lparr>partType = ''arm'', parentEntityId = Num 3\<rparr>),
        (9, \<lparr>partType = ''leg'', parentEntityId = Num 3\<rparr>)],
     targeting = [], nodeId = 10, enemyTargetingEnabled = True,
     agentTargetingEnabled = True, console = [], randomCalls = 14\<rparr>"

text \<open>
  \<^verbatim>\<open>api.addAgent(); api.addEnemy(); api.addEnemy()\<close> with the draws of \<open>rndB\<close>: the
  agent has a rifle (id 1) and a melee weapon (id 2) and stands at the origin, the first
  infantry enemy (id 3) at (400, 0) and the second (id 10) at the origin.
\<close>

definition twoEnemiesWorld :: World where
  "twoEnemiesWorld =
    \<lparr>entities =
       [\<lparr>entity_id = 0, entity_type = ''agent'', entity_components_targetPartType = None\<rparr>,
        \<lparr>entity_id = 3, entity_type = ''enemy'', entity_components_targetPartType = None\<rparr>,
        \<lparr>entity_id = 10, entity_type = ''enemy'', entity_components_targetPartType = None\<rparr>],
     position =
       [(0, \<lparr>pos_x = 0, pos_y = 0\<rparr>), (1, \<lparr>pos_x = 10, pos_y = 10\<rparr>),
        (2, \<lparr>pos_x = 10, pos_y = 10\<rparr>), (3, \<lparr>pos_x = 400, pos_y = 0\<rparr>),
        (4, \<lparr>pos_x = 410, pos_y = 10\<rparr>), (5, \<lparr>pos_x = 410, pos_y = 10\<rparr>),
        (6, \<lparr>pos_x = 0, pos_y = 0\<rparr>), (7, \<lparr>pos_x = 0, pos_y = 0\<rparr>),
        (8, \<lparr>pos_x = 0, pos_y = 0\<rparr>), (9, \<lparr>pos_x = 0, pos_y = 0\<rparr>),
        (10, \<lparr>pos_x = 0, pos_y = 0\<rparr>), (11, \<lparr>pos_x = 10, pos_y = 10\<rparr>),
        (12, \<lparr>pos_x = 10, pos_y = 10\<rparr>), (13, \<lparr>pos_x = 0, pos_y = 0\<rparr>),
        (14, \<lparr>pos_x = 0, pos_y = 0\<rparr>), (15, \<lparr>pos_x = 0, pos_y = 0\<rparr>),
        (16, \<lparr>pos_x = 0, pos_y = 0\<rparr>)],
     health =
       [(0, \<lparr>health_value = 100\<rparr>), (3, \<lparr>health_value = 50\<rparr>),
        (6, \<lparr>health_value = 10\<rparr>), (7, \<lparr>health_value = 10\<rparr>),
        (8, \<lparr>health_value = 10\<rparr>), (9, \<lparr>health_value = 10\<rparr>),
        (10, \<lparr>health_value = 50\<rparr>), (13, \<lparr>health_value = 10\<rparr>),
        (14, \<lparr>health_value = 10\<rparr>), (15, \<lparr>health_value = 10\<rparr>),
        (16, \<lparr>health_value = 10\<rparr>)],
     weaponSlots =
       [(0, \<lparr>weaponIds = [Some 1, Some 2, None, None, None, None, None]\<rparr>),
        (3, \<lparr>weaponIds = [Some 4, Some 5]\<rparr>),
        (10, \<lparr>weaponIds = [Some 11, Some 12]\<rparr>)],
     weapon =
       [(1, \<lparr>weaponType = ''rifle''\<rparr>), (2, \<lparr>weaponType = ''melee''\<rparr>),
        (4, \<lparr>weaponType = ''laser''\<rparr>), (5, \<lparr>weaponType = ''melee''\<rparr>),
        (11, \<lparr>weaponType = ''laser''\<rparr>), (12, \<lparr>weaponType = ''melee''\<rparr>)],
     enemyType = [(3, \<lparr>enemy_type = ''infantry''\<rparr>), (10, \<lparr>enemy_type = ''infantry''\<rparr>)],
     targetPartType =
       [(6, \<lparr>partType = ''head'', parentEntityId = Num 3\<rparr>),
        (7, \<lparr>partType = ''body'', parentEntityId = Num 3\<rparr>),
        (8, \<lparr>partType = ''arm'', parentEntityId = Num 3\<rparr>),
        (9, \<lparr>partType = ''leg'', parentEntityId = Num 3\<rparr>),
        (13, \<lparr>partType = ''head'', parentEntityId = Num 10\<rparr>),
        (14, \<lparr>partType = ''body'', parentEntityId = Num 10\<rparr>),
        (15, \<lparr>partType = ''arm'', parentEntityId = Num 10\<rparr>),
        (16, \<lparr>partType = ''leg'', parentEntityId = Num 10\<rparr>)],
     targeting = [], nodeId = 17, enemyTargetingEnabled = True,
     agentTargetingEnabled = True, console = [], randomCalls = 25\<rparr>"

text \<open>
  A stream of draws whose fourth draw, the enemy's type, selects index 2 (tank); every
  other draw is 0.
\<close>

definition rndTank :: "nat \<Rightarrow> real" where
  "rndTank n = (if n = 3 then 7 / 10 else 0)"

text \<open>
  \<^verbatim>\<open>api.addAgent()\<close> on the initial state with the draws of \<open>rndTank\<close>: both weapons
  are rifles.
\<close>

definition rifleAgentWorld :: World where
  "rifleAgentWorld =
    agentWorld\<lparr>weapon := [(1, \<lparr>weaponType = ''rifle''\<rparr>), (2, \<lparr>weaponType = ''rifle''\<rparr>)]\<rparr>"

text \<open>
  \<^verbatim>\<open>api.addAgent(); api.addEnemy()\<close> with draws that give the agent two rifles (ids 1
  and 2) and make the enemy (id 3) a tank, whose heat sink is the part with id 6;
  everything is at the origin.
\<close>

definition tankWorld :: World where
  "tankWorld =
    \<lparr>entities =
       [\<lparr>entity_id = 0, entity_type = ''agent'', entity_components_targetPartType = None\<rparr>,
        \<lparr>entity_id = 3, entity_type = ''enemy'', entity_components_targetPartType = None\<rparr>],
     position =
       [(0, \<lparr>pos_x = 0, pos_y = 0\<rparr>), (1, \<lparr>pos_x = 10, pos_y = 10\<rparr>),
        (2, \<lparr>pos_x = 10, pos_y = 10\<rparr>), (3, \<lparr>pos_x = 0, pos_y = 0\<rparr>),
        (4, \<lparr>pos_x = 10, pos_y = 10\<rparr>), (5, \<lparr>pos_x = 10, pos_y = 10\<rparr>),
        (6, \<lparr>pos_x = 0, pos_y = 0\<rparr>), (7, \<lparr>pos_x = 0, pos_y = 0\<rparr>),
        (8, \<lparr>pos_x = 0, pos_y = 0\<rparr>), (9, \<lparr>pos_x = 0, pos_y = 0\<rparr>)],
     health =
       [(0, \<lparr>health_value = 100\<rparr>), (3, \<lparr>health_value = 200\<rparr>),
        (6, \<lparr>health_value = 10\<rparr>), (7, \<lparr>health_value = 10\<rparr>),
        (8, \<lparr>health_value = 10\<rparr>), (9, \<lparr>health_value = 10\<rparr>)],
     weaponSlots =
       [(0, \<lparr>weaponIds = [Some 1, Some 2, None, None, None, None, None]\<rparr>),
        (3, \<lparr>weaponIds = [Some 4, Some 5]\<rparr>)],
     weapon =
       [(1, \<lparr>weaponType = ''rifle''\<rparr>), (2, \<lparr>weaponType = ''rifle''\<rparr>),
        (4, \<lparr>weaponType = ''laser''\<rparr>), (5, \<lparr>weaponType = ''cannon''\<rparr>)],
     enemyType = [(3, \<lparr>enemy_type = ''tank''\<rparr>)],
     targetPartType =
       [(6, \<lparr>partType = ''heat sink'', parentEntityId = Num 3\<rparr>),
        (7, \<lparr>partType = ''turret'', parentEntityId = Num 3\<rparr>),
        (8, \<lparr>partType = ''tread'', parentEntityId = Num 3\<rparr>),
        (9, \<lparr>partType = ''armor'', parentEntityId = Num 3\<rparr>)],
     targeting = [], nodeId = 10, enemyTargetingEnabled = True,
     agentTargetingEnabled = True, console = [], randomCalls = 14\<rparr>"

text \<open>
  The stream whose every draw is 0: every shot with a positive hit probability hits.
\<close>

definition rndZero :: "nat \<Rightarrow> real" where
  "rndZero n = 0"

text \<open>
  The links an assignment pass writes in \<open>killWorld\<close>.
\<close>

definition killLinks :: "TargetingComponent obj" where
  "killLinks =
    [(2, \<lparr>source = 2, target = 3, color = ''gray'', enabled = True\<rparr>),
     (4, \<lparr>source = 4, target = 3, color = ''gray'', enabled = True\<rparr>),
     (5, \<lparr>source = 5, target = 0, color = ''gray'', enabled = True\<rparr>)]"

text \<open>
  A store given to the damage pass directly: an agent with two melee weapons (ids 2 and
  4) and an enemy (id 3) with one (id 5) and 20 health left; everything, the weapons too,
  is at the origin (the spawn helpers put a weapon 10 off its owner on both axes).
\<close>

definition killWorld :: World where
  "killWorld =
    \<lparr>entities = [agent0, enemy3],
     position =
       [(0, \<lparr>pos_x = 0, pos_y = 0\<rparr>), (2, \<lparr>pos_x = 0, pos_y = 0\<rparr>),
        (3, \<lparr>pos_x = 0, pos_y = 0\<rparr>), (4, \<lparr>pos_x = 0, pos_y = 0\<rparr>),
        (5, \<lparr>pos_x = 0, pos_y = 0\<rparr>)],
     health = [(0, \<lparr>health_value = 100\<rparr>), (3, \<lparr>health_value = 20\<rparr>)],
     weaponSlots =
       [(0, \<lparr>weaponIds = [Some 2, Some 4, None, None, None, None, None]\<rparr>),
        (3, \<lparr>weaponIds = [Some 5, None]\<rparr>)],
     weapon =
       [(2, \<lparr>weaponType = ''melee''\<rparr>), (4, \<lparr>weaponType = ''melee''\<rparr>),
        (5, \<lparr>weaponType = ''melee''\<rparr>)],
     enemyType = [(3, \<lparr>enemy_type = ''infantry''\<rparr>)],
     targetPartType = [], targeting = killLinks, nodeId = 6,
     enemyTargetingEnabled = True, agentTargetingEnabled = True, console = [],
     randomCalls = 0\<rparr>"

text \<open>
  \<open>killWorld\<close> after the link of weapon 2 is resolved: the enemy is gone.
\<close>

definition midKillWorld :: World where
  "midKillWorld =
    \<lparr>entities = [agent0],
     position =
       [(0, \<lparr>pos_x = 0, pos_y = 0\<rparr>), (2, \<lparr>pos_x = 0, pos_y = 0\<rparr>),
        (4, \<lparr>pos_x = 0, pos_y = 0\<rparr>), (5, \<lparr>pos_x = 0, pos_y = 0\<rparr>)],
     health = [(0, \<lparr>health_value = 100\<rparr>)],
     weaponSlots = [(0, \<lparr>weaponIds = [Some 2, Some 4, None, None, None, None, None]\<rparr>)],
     weapon =
       [(2, \<lparr>weaponType = ''melee''\<rparr>), (4, \<lparr>weaponType = ''melee''\<rparr>),
        (5, \<lparr>weaponType = ''melee''\<rparr>)],
     enemyType = [], targetPartType = [], targeting = killLinks, nodeId = 6,
     enemyTargetingEnabled = True, agentTargetingEnabled = True, console = [],
     randomCalls = 1\<rparr>"

text \<open>
  \<open>killWorld\<close> after the whole damage pass: the dead enemy's weapon has still hit the
  agent.
\<close>

definition afterKillWorld :: World where
  "afterKillWorld =
    midKillWorld\<lparr>health := [(0, \<lparr>health_value = 80\<rparr>)], randomCalls := 2\<rparr>"

section \<open>Properties\<close>

subsection \<open>Objects\<close>

lemma map_of_insort_key:
  "k \<notin> fst ` set xs \<Longrightarrow>
     map_of (insort_key fst (k, v) xs) k' = (if k' = k then Some v else map_of xs k')"
  by (induction xs) auto

lemma obj_get_delete [simp]:
  "obj_get (obj_delete m k) k' = (if k' = k then None else obj_get m k')"
  unfolding obj_get_def obj_delete_def
  by (induction m) auto

lemma obj_get_set [simp]:
  "obj_get (obj_set m k v) k' = (if k' = k then Some v else obj_get m k')"
proof -
  have "k \<notin> fst ` set (obj_delete m k)"
    by (auto simp: obj_delete_def)
  then show ?thesis
    using obj_get_delete [of m k k']
    by (simp add: obj_set_def obj_get_def map_of_insort_key)
qed

lemma set_obj_delete: "set (obj_delete m k) = {p \<in> set m. fst p \<noteq> k}"
  by (auto simp: obj_delete_def)

lemma set_obj_set: "set (obj_set m k v) = insert (k, v) {p \<in> set m. fst p \<noteq> k}"
  by (simp add: obj_set_def set_insort_key set_obj_delete)

lemma obj_wf_delete: "obj_wf m \<Longrightarrow> obj_wf (obj_delete m k)"
  unfolding obj_wf_def obj_delete_def
  by (induction m) auto

lemma sorted_wrt_insort_fresh:
  "sorted_wrt (<) (map fst xs) \<Longrightarrow> k \<notin> fst ` set xs \<Longrightarrow>
     sorted_wrt (<) (map fst (insort_key fst (k, v) xs))"
proof (induction xs)
  case Nil
  then show ?case by simp
next
  case (Cons p xs)
  then show ?case
    by (cases p) (fastforce simp: set_insort_key)
qed

lemma obj_wf_set: "obj_wf m \<Longrightarrow> obj_wf (obj_set m k v)"
proof -
  assume "obj_wf m"
  then have "sorted_wrt (<) (map fst (obj_delete m k))"
    using obj_wf_delete by (simp add: obj_wf_def)
  moreover have "k \<notin> fst ` set (obj_delete m k)"
    by (auto simp: obj_delete_def)
  ultimately show ?thesis
    by (simp add: obj_wf_def obj_set_def sorted_wrt_insort_fresh)
qed

lemma obj_wf_distinct: "obj_wf m \<Longrightarrow> distinct (map fst m)"
  unfolding obj_wf_def by (simp add: strict_sorted_iff)

lemma obj_get_Some_mem: "obj_get m k = Some v \<Longrightarrow> (k, v) \<in> set m"
  by (simp add: obj_get_def map_of_SomeD)

lemma obj_mem_get: "obj_wf m \<Longrightarrow> (k, v) \<in> set m \<Longrightarrow> obj_get m k = Some v"
  by (simp add: obj_get_def obj_wf_distinct)


subsection \<open>Assignment writes one link, keyed by the weapon\<close>

lemma assignIfInRange_Some:
  "assignIfInRange w owner wpn tgt s = Inr (Some s') \<Longrightarrow>
     s' = s\<lparr>targeting := obj_set (targeting s) w (newLink w wpn tgt)\<rparr>"
  by (auto simp: assignIfInRange_def newLink_def split: option.splits if_splits)

lemma assignPrimary_Some:
  "assignPrimary w owner wpn ts s = Inr (Some s') \<Longrightarrow>
     \<exists>tgt \<in> set (entities s). entity_type tgt \<in> set ts
        \<and> s' = s\<lparr>targeting := obj_set (targeting s) w (newLink w wpn tgt)\<rparr>"
proof (induction ts)
  case Nil
  then show ?case by simp
next
  case (Cons t ts)
  show ?case
  proof (cases "find (\<lambda>e. entity_type e = t \<and> \<not> alreadyTargeted s w (entity_id e)) (entities s)")
    case None
    with Cons show ?thesis by auto
  next
    case (Some tgt)
    then have tgt: "tgt \<in> set (entities s)" "entity_type tgt = t"
      by (auto simp: find_Some_iff)
    show ?thesis
    proof (cases "assignIfInRange w owner wpn tgt s")
      case (Inl e)
      with Cons.prems Some show ?thesis by simp
    next
      case (Inr r)
      show ?thesis
      proof (cases r)
        case None
        with Cons Some Inr show ?thesis by auto
      next
        case (Some s1)
        with Cons.prems \<open>find _ _ = Some tgt\<close> Inr have "s1 = s'" by simp
        with Some Inr tgt show ?thesis
          by (auto dest: assignIfInRange_Some)
      qed
    qed
  qed
qed

lemma assignSpecificParts_Some:
  "assignSpecificParts w owner wpn tt ps s = Inr (Some s') \<Longrightarrow>
     \<exists>tgt \<in> set (entities s). entity_type tgt = TARGET_PART
        \<and> s' = s\<lparr>targeting := obj_set (targeting s) w (newLink w wpn tgt)\<rparr>"
proof (induction ps)
  case Nil
  then show ?case by simp
next
  case (Cons p ps)
  show ?case
  proof (cases "find (specificMatch s w tt p) (entities s)")
    case None
    with Cons show ?thesis by auto
  next
    case (Some tgt)
    then have tgt: "tgt \<in> set (entities s)" "entity_type tgt = TARGET_PART"
      by (auto simp: find_Some_iff specificMatch_def)
    show ?thesis
    proof (cases "assignIfInRange w owner wpn tgt s")
      case (Inl e)
      with Cons.prems Some show ?thesis by simp
    next
      case (Inr r)
      show ?thesis
      proof (cases r)
        case None
        with Cons Some Inr show ?thesis by auto
      next
        case (Some s1)
        with Cons.prems \<open>find _ _ = Some tgt\<close> Inr have "s1 = s'" by simp
        with Some Inr tgt show ?thesis
          by (auto dest: assignIfInRange_Some)
      qed
    qed
  qed
qed

lemma assignSpecific_Some:
  "assignSpecific w owner wpn sp s = Inr (Some s') \<Longrightarrow>
     \<exists>tgt \<in> set (entities s). entity_type tgt = TARGET_PART
        \<and> s' = s\<lparr>targeting := obj_set (targeting s) w (newLink w wpn tgt)\<rparr>"
proof (induction sp)
  case Nil
  then show ?case by simp
next
  case (Cons a sp)
  obtain tt ps where a: "a = (tt, ps)" by (cases a)
  show ?case
  proof (cases "assignSpecificParts w owner wpn tt ps s")
    case (Inl e)
    with Cons.prems a show ?thesis by simp
  next
    case (Inr r)
    show ?thesis
    proof (cases r)
      case None
      with Cons a Inr show ?thesis by auto
    next
      case (Some s1)
      with Cons.prems a Inr have "s1 = s'" by simp
      with Some Inr show ?thesis
        by (auto dest: assignSpecificParts_Some)
    qed
  qed
qed

lemma assignWeaponToTarget_cases:
  assumes "assignWeaponToTarget w owner s = Inr s'"
  shows "s' = s \<or> (\<exists>wpn. obj_get (weapon s) w = Some wpn \<and> (\<exists>tgt \<in> set (entities s).
            s' = s\<lparr>targeting := obj_set (targeting s) w (newLink w wpn tgt)\<rparr>))"
proof -
  from assms obtain wpn where wpn: "obj_get (weapon s) w = Some wpn"
    by (auto simp: assignWeaponToTarget_def split: option.splits)
  show ?thesis
  proof (cases "map_of WeaponTargetConfig (weaponType wpn)")
    case None
    with assms wpn show ?thesis by (simp add: assignWeaponToTarget_def)
  next
    case (Some prefs)
    let ?ts = "filter (\<lambda>t. t \<in> set (validTargetTypes (entity_type owner))) (primary prefs)"
    show ?thesis
    proof (cases "assignPrimary w owner wpn ?ts s")
      case (Inl e)
      with assms wpn Some show ?thesis by (simp add: assignWeaponToTarget_def)
    next
      case (Inr r)
      show ?thesis
      proof (cases r)
        case (Some s1)
        with assms wpn \<open>map_of _ _ = Some prefs\<close> Inr have "s1 = s'"
          by (simp add: assignWeaponToTarget_def)
        with Some Inr wpn show ?thesis
          by (auto dest: assignPrimary_Some)
      next
        case None
        show ?thesis
        proof (cases "specificTargets prefs")
          case no: None
          with assms wpn Some Inr None show ?thesis
            by (simp add: assignWeaponToTarget_def)
        next
          case (Some sp)
          from assms wpn \<open>map_of _ _ = Some prefs\<close> Inr None Some
          have "assignSpecific w owner wpn sp s = Inr (Some s') \<or> s' = s"
            by (auto simp: assignWeaponToTarget_def split: sum.splits option.splits)
          with wpn show ?thesis
            by (auto dest: assignSpecific_Some)
        qed
      qed
    qed
  qed
qed

subsection \<open>Invariant rules for the iterations of the pass\<close>

lemma assignWeapons_invariant:
  assumes step: "\<And>w t t'. Some w \<in> set ws \<Longrightarrow> P t \<Longrightarrow> assignWeaponToTarget w owner t = Inr t' \<Longrightarrow> P t'"
    and "P s" and "assignWeapons owner ws s = Inr s'"
  shows "P s'"
  using assms
proof (induction ws arbitrary: s)
  case Nil
  then show ?case by simp
next
  case (Cons x ws)
  show ?case
  proof (cases x)
    case None
    with Cons show ?thesis by auto
  next
    case (Some w)
    with Cons.prems obtain t where t: "assignWeaponToTarget w owner s = Inr t"
      and rest: "assignWeapons owner ws t = Inr s'"
      by (auto split: sum.splits)
    have "P t" using Cons.prems(1) [of w s t] Some t Cons.prems(2) by simp
    with Cons.IH [of t] Cons.prems(1) rest show ?thesis by auto
  qed
qed

lemma assignEntities_invariant:
  assumes step: "\<And>e t t'. e \<in> set es \<Longrightarrow> P t \<Longrightarrow> assignEntity e t = Inr t' \<Longrightarrow> P t'"
    and "P s" and "assignEntities es s = Inr s'"
  shows "P s'"
  using assms
proof (induction es arbitrary: s)
  case Nil
  then show ?case by simp
next
  case (Cons e es)
  from Cons.prems obtain t where t: "assignEntity e s = Inr t"
    and rest: "assignEntities es t = Inr s'"
    by (auto split: sum.splits)
  have "P t" using Cons.prems(1) [of e s t] t Cons.prems(2) by simp
  with Cons.IH [of t] Cons.prems(1) rest show ?case by auto
qed


subsection \<open>What a pass leaves in the store\<close>

lemma sameStore_fields:
  assumes "sameStore s t"
  shows "entities t = entities s" and "weaponSlots t = weaponSlots s"
    and "agentTargetingEnabled t = agentTargetingEnabled s"
    and "enemyTargetingEnabled t = enemyTargetingEnabled s"
proof -
  have eq: "t\<lparr>targeting := []\<rparr> = s\<lparr>targeting := []\<rparr>"
    using assms by (simp add: sameStore_def)
  show "entities t = entities s" using arg_cong [OF eq, of entities] by simp
  show "weaponSlots t = weaponSlots s" using arg_cong [OF eq, of weaponSlots] by simp
  show "agentTargetingEnabled t = agentTargetingEnabled s"
    using arg_cong [OF eq, of agentTargetingEnabled] by simp
  show "enemyTargetingEnabled t = enemyTargetingEnabled s"
    using arg_cong [OF eq, of enemyTargetingEnabled] by simp
qed

lemma sameStore_targeting_update: "sameStore s t \<Longrightarrow> sameStore s (t\<lparr>targeting := x\<rparr>)"
  by (simp add: sameStore_def)

lemma sameStore_eq: "sameStore s t \<Longrightarrow> t = s\<lparr>targeting := targeting t\<rparr>"
proof -
  assume "sameStore s t"
  then have "t\<lparr>targeting := []\<rparr> = s\<lparr>targeting := []\<rparr>" by (simp add: sameStore_def)
  then have "(t\<lparr>targeting := []\<rparr>)\<lparr>targeting := targeting t\<rparr>
      = (s\<lparr>targeting := []\<rparr>)\<lparr>targeting := targeting t\<rparr>" by simp
  then show ?thesis by simp
qed

lemma linksKeyed_set:
  "linksKeyed t \<Longrightarrow> source link = w \<Longrightarrow> linksKeyed (obj_set t w link)"
  by (auto simp: linksKeyed_def obj_wf_set list_all_iff set_obj_set)

lemma assignWeaponToTarget_keyed:
  assumes "linksKeyed (targeting s)" and "assignWeaponToTarget w owner s = Inr s'"
  shows "linksKeyed (targeting s')"
  using assignWeaponToTarget_cases [OF assms(2)] assms(1)
  by (auto simp: linksKeyed_set newLink_def)

lemma assignWeaponToTarget_passInvariant:
  assumes inv: "passInvariant s t"
    and owner: "owner \<in> set (entities s)" "ownerEnabled s owner"
    and slots: "obj_get (weaponSlots s) (entity_id owner) = Some slots"
      "Some w \<in> set (weaponIds slots)"
    and run: "assignWeaponToTarget w owner t = Inr t'"
  shows "passInvariant s t'"
proof -
  from assignWeaponToTarget_cases [OF run]
  consider "t' = t"
    | wpn tgt where "tgt \<in> set (entities t)"
        "t' = t\<lparr>targeting := obj_set (targeting t) w (newLink w wpn tgt)\<rparr>"
    by blast
  then show ?thesis
  proof cases
    case 1
    with inv show ?thesis by simp
  next
    case 2
    from inv have same: "sameStore s t" and keyed: "linksKeyed (targeting t)"
      and old: "list_all (\<lambda>p. writtenByPass s (fst p) (snd p)) (targeting t)"
      by (simp_all add: passInvariant_def)
    have tgt: "tgt \<in> set (entities s)"
      using 2(1) sameStore_fields(1) [OF same] by simp
    have new: "writtenByPass s w (newLink w wpn tgt)"
      using owner slots tgt
      by (auto simp: writtenByPass_def newLink_def list_ex_iff)
    have "list_all (\<lambda>p. writtenByPass s (fst p) (snd p))
            (obj_set (targeting t) w (newLink w wpn tgt))"
      using old new by (auto simp: list_all_iff set_obj_set)
    moreover have "linksKeyed (obj_set (targeting t) w (newLink w wpn tgt))"
      using keyed by (simp add: linksKeyed_set newLink_def)
    ultimately show ?thesis
      using 2(2) same by (simp add: passInvariant_def sameStore_targeting_update)
  qed
qed

lemma assignEntity_passInvariant:
  assumes inv: "passInvariant s t" and owner: "owner \<in> set (entities s)"
    and run: "assignEntity owner t = Inr t'"
  shows "passInvariant s t'"
proof (cases "ownerEnabled s owner")
  case False
  from inv have same: "sameStore s t" by (simp add: passInvariant_def)
  from False run sameStore_fields(3,4) [OF same] have "t' = t"
    by (auto simp: assignEntity_def ownerEnabled_def split: if_splits)
  with inv show ?thesis by simp
next
  case True
  from inv have same: "sameStore s t" by (simp add: passInvariant_def)
  from True run sameStore_fields [OF same]
  obtain slots where slots: "obj_get (weaponSlots s) (entity_id owner) = Some slots"
    and loop: "assignWeapons owner (weaponIds slots) t = Inr t'"
    by (auto simp: assignEntity_def ownerEnabled_def assignAgentWeapons_def
          assignEnemyWeapons_def split: if_splits option.splits)
  show ?thesis
  proof (rule assignWeapons_invariant [where P = "passInvariant s", OF _ inv loop])
    fix w u u'
    assume "Some w \<in> set (weaponIds slots)" "passInvariant s u"
      "assignWeaponToTarget w owner u = Inr u'"
    then show "passInvariant s u'"
      using assignWeaponToTarget_passInvariant [OF _ owner True slots] by blast
  qed
qed

lemma update_passInvariant:
  assumes "WeaponAssignmentSystem_update s = Inr s'"
  shows "passInvariant s s'"
proof -
  let ?s0 = "s\<lparr>targeting := []\<rparr>"
  have start: "passInvariant s ?s0"
    by (simp add: passInvariant_def sameStore_def linksKeyed_def obj_wf_def)
  have loop: "assignEntities (entities s) ?s0 = Inr s'"
    using assms by (simp add: WeaponAssignmentSystem_update_def)
  show ?thesis
  proof (rule assignEntities_invariant [where P = "passInvariant s", OF _ start loop])
    fix e t t'
    assume "e \<in> set (entities s)" "passInvariant s t" "assignEntity e t = Inr t'"
    then show "passInvariant s t'"
      using assignEntity_passInvariant by blast
  qed
qed

lemma update_ignores_targeting:
  "WeaponAssignmentSystem_update (s\<lparr>targeting := t\<rparr>) = WeaponAssignmentSystem_update s"
  by (simp add: WeaponAssignmentSystem_update_def)

lemma keyed_sources:
  "list_all (\<lambda>p. source (snd p) = fst p) t \<Longrightarrow>
     map source (filter enabled (map snd t)) = map fst (filter (\<lambda>p. enabled (snd p)) t)"
  by (induction t) auto

lemma linksKeyed_oneLink: "linksKeyed t \<Longrightarrow> oneLinkPerWeapon t"
proof -
  assume k: "linksKeyed t"
  then have "distinct (map fst t)" by (simp add: linksKeyed_def obj_wf_distinct)
  then have "distinct (map fst (filter (\<lambda>p. enabled (snd p)) t))"
    by (rule distinct_map_filter)
  with k show ?thesis
    by (simp add: oneLinkPerWeapon_def obj_values_def linksKeyed_def keyed_sources)
qed

lemma assignPrimary_all_targeted:
  assumes "\<forall>e \<in> set (entities s). entity_type e \<in> set ts \<longrightarrow> alreadyTargeted s w (entity_id e)"
  shows "assignPrimary w owner wpn ts s = Inr None"
  using assms
proof (induction ts)
  case Nil
  then show ?case by simp
next
  case (Cons t ts)
  have "find (\<lambda>e. entity_type e = t \<and> \<not> alreadyTargeted s w (entity_id e)) (entities s) = None"
    using Cons.prems by (auto simp: find_None_iff)
  with Cons show ?case by simp
qed

lemma assignSpecificParts_all_targeted:
  assumes "\<forall>e \<in> set (entities s). entity_type e = TARGET_PART \<longrightarrow> alreadyTargeted s w (entity_id e)"
  shows "assignSpecificParts w owner wpn tt ps s = Inr None"
proof (induction ps)
  case Nil
  then show ?case by simp
next
  case (Cons p ps)
  have "find (specificMatch s w tt p) (entities s) = None"
    using assms by (auto simp: find_None_iff specificMatch_def)
  with Cons show ?case by simp
qed

lemma assignSpecific_all_targeted:
  assumes "\<forall>e \<in> set (entities s). entity_type e = TARGET_PART \<longrightarrow> alreadyTargeted s w (entity_id e)"
  shows "assignSpecific w owner wpn sp s = Inr None"
proof (induction sp)
  case Nil
  then show ?case by simp
next
  case (Cons a sp)
  then show ?case
    using assignSpecificParts_all_targeted [OF assms]
    by (cases a) simp
qed

lemma assignWeaponToTarget_all_targeted:
  assumes wpn: "obj_get (weapon s) w = Some wpn"
    and all: "\<forall>e \<in> set (entities s).
      entity_type e \<in> set (validTargetTypes (entity_type owner)) \<or> entity_type e = TARGET_PART
        \<longrightarrow> alreadyTargeted s w (entity_id e)"
  shows "assignWeaponToTarget w owner s = Inr s"
proof -
  have p: "assignPrimary w owner wpn (filter (\<lambda>t. t \<in> set (validTargetTypes (entity_type owner))) ts) s
      = Inr None" for ts
    using all by (intro assignPrimary_all_targeted) auto
  have q: "assignSpecific w owner wpn sp s = Inr None" for sp
    using all by (intro assignSpecific_all_targeted) auto
  show ?thesis
    using wpn by (simp add: assignWeaponToTarget_def p q split: option.splits)
qed

subsection \<open>Primary targets: the loop against the spec's choice\<close>

lemma entity_types_distinct [simp]:
  "AGENT \<noteq> ENEMY" "ENEMY \<noteq> AGENT" "AGENT \<noteq> TARGET_PART" "TARGET_PART \<noteq> AGENT"
  "ENEMY \<noteq> TARGET_PART" "TARGET_PART \<noteq> ENEMY"
  by (simp_all add: AGENT_def ENEMY_def TARGET_PART_def)

lemma assignIfInRange_Inr:
  assumes "assignIfInRange w owner wpn tgt s = Inr x"
  shows "x = (if inRangeOf s owner wpn tgt
          then Some (s\<lparr>targeting := obj_set (targeting s) w (newLink w wpn tgt)\<rparr>)
          else None)"
proof -
  from assms obtain a where a: "obj_get (position s) (entity_id owner) = Some a"
    by (cases "obj_get (position s) (entity_id owner)") (simp_all add: assignIfInRange_def)
  from assms a obtain b where b: "obj_get (position s) (entity_id tgt) = Some b"
    by (cases "obj_get (position s) (entity_id tgt)") (simp_all add: assignIfInRange_def)
  from assms a b obtain r where r: "map_of WeaponRangeConfig (weaponType wpn) = Some r"
    by (cases "map_of WeaponRangeConfig (weaponType wpn)") (simp_all add: assignIfInRange_def)
  show ?thesis
  proof (cases "distanceBetween a b \<le> snd r")
    case True
    with assms a b r show ?thesis
      by (simp add: assignIfInRange_def inRangeOf_def newLink_def)
  next
    case False
    with assms a b r show ?thesis
      by (simp add: assignIfInRange_def inRangeOf_def)
  qed
qed

lemma assignPrimary_refines:
  "assignPrimary w owner wpn ts s = Inr r \<Longrightarrow>
     r = map_option (\<lambda>e. s\<lparr>targeting := obj_set (targeting s) w (newLink w wpn e)\<rparr>)
           (find (inRangeOf s owner wpn) (List.map_filter (primaryCandidate s w) ts))"
proof (induction ts)
  case Nil
  then show ?case by (simp add: List.map_filter_simps)
next
  case (Cons t ts)
  show ?case
  proof (cases "primaryCandidate s w t")
    case None
    with Cons show ?thesis
      by (simp add: List.map_filter_simps primaryCandidate_def)
  next
    case (Some tgt)
    then have f: "find (\<lambda>e. entity_type e = t \<and> \<not> alreadyTargeted s w (entity_id e)) (entities s)
        = Some tgt"
      by (simp add: primaryCandidate_def)
    from Cons.prems f obtain x where x: "assignIfInRange w owner wpn tgt s = Inr x"
      by (auto split: sum.splits)
    note xv = assignIfInRange_Inr [OF x]
    show ?thesis
    proof (cases "inRangeOf s owner wpn tgt")
      case True
      with Cons.prems f x xv Some show ?thesis
        by (simp add: List.map_filter_simps)
    next
      case False
      with Cons f x xv Some show ?thesis
        by (simp add: List.map_filter_simps)
    qed
  qed
qed

lemma assignWeaponToTarget_primaryChoice:
  assumes "obj_get (weapon s) w = Some wpn"
    and "map_of WeaponTargetConfig (weaponType wpn) = Some prefs"
    and "assignWeaponToTarget w owner s = Inr s'"
    and "primaryChoice s w owner wpn prefs = Some e"
  shows "s' = s\<lparr>targeting := obj_set (targeting s) w (newLink w wpn e)\<rparr>"
proof -
  let ?ts = "filter (\<lambda>t. t \<in> set (validTargetTypes (entity_type owner))) (primary prefs)"
  from assms(1-3) obtain r where r: "assignPrimary w owner wpn ?ts s = Inr r"
    by (auto simp: assignWeaponToTarget_def split: sum.splits)
  from assignPrimary_refines [OF r] assms(4)
  have "r = Some (s\<lparr>targeting := obj_set (targeting s) w (newLink w wpn e)\<rparr>)"
    by (simp add: primaryChoice_def)
  with assms(1-3) r show ?thesis
    by (simp add: assignWeaponToTarget_def)
qed


lemma sameStore_more_fields:
  assumes "sameStore s t"
  shows "position t = position s" and "weapon t = weapon s"
proof -
  have eq: "t\<lparr>targeting := []\<rparr> = s\<lparr>targeting := []\<rparr>"
    using assms by (simp add: sameStore_def)
  show "position t = position s" using arg_cong [OF eq, of position] by simp
  show "weapon t = weapon s" using arg_cong [OF eq, of weapon] by simp
qed

lemma assignWeaponToTarget_keeps_entry:
  assumes "obj_get (targeting t) w \<noteq> None" and "assignWeaponToTarget w' owner t = Inr t'"
  shows "obj_get (targeting t') w \<noteq> None"
  using assignWeaponToTarget_cases [OF assms(2)] assms(1) by auto

lemma assignWeapons_keeps_entry:
  assumes "obj_get (targeting t) w \<noteq> None" and "assignWeapons owner ws t = Inr t'"
  shows "obj_get (targeting t') w \<noteq> None"
proof (rule assignWeapons_invariant [where P = "\<lambda>u. obj_get (targeting u) w \<noteq> None",
      OF _ assms])
  fix w' u u'
  assume "obj_get (targeting u) w \<noteq> None" "assignWeaponToTarget w' owner u = Inr u'"
  then show "obj_get (targeting u') w \<noteq> None"
    by (rule assignWeaponToTarget_keeps_entry)
qed

lemma assignEntity_cases:
  assumes "assignEntity e t = Inr t'"
  shows "t' = t \<or> (\<exists>slots. obj_get (weaponSlots t) (entity_id e) = Some slots
            \<and> assignWeapons e (weaponIds slots) t = Inr t')"
proof (cases "entity_type e = AGENT \<and> agentTargetingEnabled t")
  case True
  then have "assignAgentWeapons e t = Inr t'"
    using assms by (simp add: assignEntity_def)
  then show ?thesis
    by (cases "obj_get (weaponSlots t) (entity_id e)") (simp_all add: assignAgentWeapons_def)
next
  case False
  show ?thesis
  proof (cases "entity_type e = ENEMY \<and> enemyTargetingEnabled t")
    case True
    with False have "assignEnemyWeapons e t = Inr t'"
      using assms by (simp add: assignEntity_def)
    then show ?thesis
      by (cases "obj_get (weaponSlots t) (entity_id e)") (simp_all add: assignEnemyWeapons_def)
  next
    case no: False
    have "assignEntity e t = Inr t"
      using False no by (auto simp: assignEntity_def)
    with assms show ?thesis by simp
  qed
qed

lemma assignEntity_keeps_entry:
  assumes "obj_get (targeting t) w \<noteq> None" and "assignEntity e t = Inr t'"
  shows "obj_get (targeting t') w \<noteq> None"
  using assignEntity_cases [OF assms(2)] assms(1) assignWeapons_keeps_entry by blast

lemma assignEntities_keeps_entry:
  assumes "obj_get (targeting t) w \<noteq> None" and "assignEntities es t = Inr t'"
  shows "obj_get (targeting t') w \<noteq> None"
proof (rule assignEntities_invariant [where P = "\<lambda>u. obj_get (targeting u) w \<noteq> None",
      OF _ assms])
  fix e u u'
  assume "obj_get (targeting u) w \<noteq> None" "assignEntity e u = Inr u'"
  then show "obj_get (targeting u') w \<noteq> None"
    by (rule assignEntity_keeps_entry)
qed

lemma assignWeapons_append:
  "assignWeapons owner (xs @ ys) s =
     (case assignWeapons owner xs s of Inl e \<Rightarrow> Inl e | Inr t \<Rightarrow> assignWeapons owner ys t)"
proof (induction xs arbitrary: s)
  case Nil
  then show ?case by simp
next
  case (Cons x xs)
  then show ?case
    by (cases x) (simp_all split: sum.splits)
qed

lemma assignEntities_append:
  "assignEntities (xs @ ys) s =
     (case assignEntities xs s of Inl e \<Rightarrow> Inl e | Inr t \<Rightarrow> assignEntities ys t)"
  by (induction xs arbitrary: s) (simp_all split: sum.splits)

lemma assignWeapons_passInvariant:
  assumes inv: "passInvariant s t" and owner: "owner \<in> set (entities s)" "ownerEnabled s owner"
    and slots: "obj_get (weaponSlots s) (entity_id owner) = Some slots"
      "set ws \<subseteq> set (weaponIds slots)"
    and loop: "assignWeapons owner ws t = Inr t'"
  shows "passInvariant s t'"
proof (rule assignWeapons_invariant [where P = "passInvariant s", OF _ inv loop])
  fix w u u'
  assume "Some w \<in> set ws" "passInvariant s u" "assignWeaponToTarget w owner u = Inr u'"
  then show "passInvariant s u'"
    using assignWeaponToTarget_passInvariant [OF _ owner slots(1)] slots(2) by blast
qed

lemma assignEntities_passInvariant:
  assumes inv: "passInvariant s t" and sub: "set es \<subseteq> set (entities s)"
    and loop: "assignEntities es t = Inr t'"
  shows "passInvariant s t'"
proof (rule assignEntities_invariant [where P = "passInvariant s", OF _ inv loop])
  fix e u u'
  assume "e \<in> set es" "passInvariant s u" "assignEntity e u = Inr u'"
  then show "passInvariant s u'"
    using assignEntity_passInvariant sub by blast
qed

lemma keyed_no_entry_not_targeted:
  assumes "linksKeyed (targeting t)" and "obj_get (targeting t) w = None"
  shows "\<not> alreadyTargeted t w i"
proof
  assume "alreadyTargeted t w i"
  then obtain p where p: "p \<in> set (targeting t)" "source (snd p) = w"
    by (auto simp: alreadyTargeted_def list_ex_iff obj_values_def)
  with assms(1) have "fst p = w"
    by (auto simp: linksKeyed_def list_all_iff)
  with p(1) have "(w, snd p) \<in> set (targeting t)"
    by (metis prod.collapse)
  with assms(1) have "obj_get (targeting t) w = Some (snd p)"
    by (simp add: linksKeyed_def obj_mem_get)
  with assms(2) show False by simp
qed

lemma primaryChoice_fresh:
  assumes same: "sameStore s t" and keyed: "linksKeyed (targeting t)"
    and none: "obj_get (targeting t) w = None"
  shows "primaryChoice t w owner wpn prefs = primaryChoice (s\<lparr>targeting := []\<rparr>) w owner wpn prefs"
proof -
  have nt: "\<not> alreadyTargeted t w i" for i
    using keyed_no_entry_not_targeted [OF keyed none] .
  have n0: "\<not> alreadyTargeted (s\<lparr>targeting := []\<rparr>) w i" for i
    by (simp add: alreadyTargeted_def obj_values_def)
  have cand: "primaryCandidate t w = primaryCandidate (s\<lparr>targeting := []\<rparr>) w"
    using sameStore_fields(1) [OF same] nt n0
    by (simp add: primaryCandidate_def fun_eq_iff)
  have pe: "position t = position (s\<lparr>targeting := []\<rparr>)"
    using sameStore_more_fields(1) [OF same] by simp
  have "inRangeOf t owner wpn x = inRangeOf (s\<lparr>targeting := []\<rparr>) owner wpn x" for x
    by (simp only: inRangeOf_def pe)
  then have rng: "inRangeOf t owner wpn = inRangeOf (s\<lparr>targeting := []\<rparr>) owner wpn"
    by (simp add: fun_eq_iff)
  show ?thesis
    by (simp add: primaryChoice_def cand rng)
qed

lemma assignWeaponToTarget_gains_entry:
  assumes inv: "passInvariant s t"
    and wpn: "obj_get (weapon s) w = Some wpn"
    and prefs: "map_of WeaponTargetConfig (weaponType wpn) = Some prefs"
    and choice: "primaryChoice (s\<lparr>targeting := []\<rparr>) w owner wpn prefs = Some e"
    and run: "assignWeaponToTarget w owner t = Inr t'"
  shows "obj_get (targeting t') w \<noteq> None"
proof (cases "obj_get (targeting t) w")
  case (Some l)
  then show ?thesis
    using assignWeaponToTarget_keeps_entry [OF _ run] by simp
next
  case None
  from inv have same: "sameStore s t" and keyed: "linksKeyed (targeting t)"
    by (simp_all add: passInvariant_def)
  have "primaryChoice t w owner wpn prefs = Some e"
    using primaryChoice_fresh [OF same keyed None] choice by simp
  moreover have "obj_get (weapon t) w = Some wpn"
    using wpn sameStore_more_fields(2) [OF same] by simp
  ultimately have "t' = t\<lparr>targeting := obj_set (targeting t) w (newLink w wpn e)\<rparr>"
    using assignWeaponToTarget_primaryChoice [OF _ prefs run] by blast
  then show ?thesis by simp
qed

lemma keyed_single_link:
  assumes "linksKeyed t" and "obj_get t w = Some l"
  shows "filter (\<lambda>l. source l = w) (obj_values t) = [l]"
proof -
  from assms(1) have d: "distinct (map fst t)" and k: "list_all (\<lambda>p. source (snd p) = fst p) t"
    by (simp_all add: linksKeyed_def obj_wf_distinct)
  from assms(2) have m: "map_of t w = Some l" by (simp add: obj_get_def)
  from d k m have "filter (\<lambda>l. source l = w) (map snd t) = [l]"
  proof (induction t)
    case Nil
    then show ?case by simp
  next
    case (Cons p t)
    obtain a b where p: "p = (a, b)" by (cases p)
    show ?case
    proof (cases "a = w")
      case True
      with Cons.prems p have b: "b = l" "source b = w" by auto
      have "filter (\<lambda>l. source l = w) (map snd t) = []"
      proof -
        have "\<forall>q \<in> set t. source (snd q) \<noteq> w"
        proof
          fix q assume q: "q \<in> set t"
          with Cons.prems(2) have "source (snd q) = fst q" by (simp add: list_all_iff)
          moreover from q Cons.prems(1) p True have "fst q \<noteq> w" by auto
          ultimately show "source (snd q) \<noteq> w" by simp
        qed
        then show ?thesis by (auto simp: filter_empty_conv)
      qed
      with b p show ?thesis by simp
    next
      case False
      with Cons.prems p have "map_of t w = Some l" "source b \<noteq> w" by auto
      with Cons p show ?thesis by simp
    qed
  qed
  then show ?thesis by (simp add: obj_values_def)
qed

lemma assignEntity_enabled:
  assumes same: "sameStore s t" and en: "ownerEnabled s owner"
    and slots: "obj_get (weaponSlots s) (entity_id owner) = Some slots"
    and run: "assignEntity owner t = Inr t'"
  shows "assignWeapons owner (weaponIds slots) t = Inr t'"
proof -
  note f = sameStore_fields [OF same]
  show ?thesis
  proof (cases "entity_type owner = AGENT \<and> agentTargetingEnabled s")
    case True
    with run f slots show ?thesis
      by (simp add: assignEntity_def assignAgentWeapons_def)
  next
    case False
    with en have "entity_type owner = ENEMY \<and> enemyTargetingEnabled s"
      by (auto simp: ownerEnabled_def)
    with False run f slots show ?thesis
      by (simp add: assignEntity_def assignEnemyWeapons_def)
  qed
qed

lemma update_gains_entry:
  assumes run: "WeaponAssignmentSystem_update s = Inr s''"
    and owner: "owner \<in> set (entities s)" "ownerEnabled s owner"
    and slots: "obj_get (weaponSlots s) (entity_id owner) = Some slots"
      "Some w \<in> set (weaponIds slots)"
    and wpn: "obj_get (weapon s) w = Some wpn"
    and prefs: "map_of WeaponTargetConfig (weaponType wpn) = Some prefs"
    and choice: "primaryChoice (s\<lparr>targeting := []\<rparr>) w owner wpn prefs = Some e"
  shows "obj_get (targeting s'') w \<noteq> None"
proof -
  let ?s0 = "s\<lparr>targeting := []\<rparr>"
  have start: "passInvariant s ?s0"
    by (simp add: passInvariant_def sameStore_def linksKeyed_def obj_wf_def)
  from owner(1) obtain es1 es2 where es: "entities s = es1 @ owner # es2"
    by (auto dest: split_list)
  from run have "assignEntities (es1 @ owner # es2) ?s0 = Inr s''"
    by (simp add: WeaponAssignmentSystem_update_def es)
  then obtain t1 t2 where t1: "assignEntities es1 ?s0 = Inr t1"
    and t2: "assignEntity owner t1 = Inr t2"
    and rest: "assignEntities es2 t2 = Inr s''"
    by (auto simp: assignEntities_append split: sum.splits)
  have inv1: "passInvariant s t1"
    using assignEntities_passInvariant [OF start _ t1] es by auto
  then have same1: "sameStore s t1" by (simp add: passInvariant_def)
  have loop: "assignWeapons owner (weaponIds slots) t1 = Inr t2"
    using assignEntity_enabled [OF same1 owner(2) slots(1) t2] .
  from slots(2) obtain ws1 ws2 where ws: "weaponIds slots = ws1 @ Some w # ws2"
    by (auto dest: split_list)
  from loop obtain u1 u2 where u1: "assignWeapons owner ws1 t1 = Inr u1"
    and u2: "assignWeaponToTarget w owner u1 = Inr u2"
    and rest2: "assignWeapons owner ws2 u2 = Inr t2"
    by (auto simp: ws assignWeapons_append split: sum.splits)
  have inv2: "passInvariant s u1"
    using assignWeapons_passInvariant [OF inv1 owner slots(1) _ u1] ws by auto
  have "obj_get (targeting u2) w \<noteq> None"
    using assignWeaponToTarget_gains_entry [OF inv2 wpn prefs choice u2] .
  then have "obj_get (targeting t2) w \<noteq> None"
    using assignWeapons_keeps_entry rest2 by blast
  then show ?thesis
    using assignEntities_keeps_entry rest by blast
qed

subsection \<open>Damage resolution, link by link\<close>

lemma applyHit_cases:
  assumes "applyHit rnd link wpn tgt s = Inr s'"
  shows "s' = s\<lparr>randomCalls := Suc (randomCalls s)\<rparr>
    \<or> (\<exists>h v. obj_get (health s) (entity_id tgt) = Some h
          \<and> (0 < v \<and> s' = afterHit s tgt h v
              \<or> v \<le> 0 \<and> s' = killEntity tgt (afterHit s tgt h v)))"
proof -
  from assms obtain ws where ws: "map_of WeaponStats (weaponType wpn) = Some ws"
    by (cases "map_of WeaponStats (weaponType wpn)") (simp_all add: applyHit_def)
  from assms ws obtain a where a: "obj_get (position s) (source link) = Some a"
    by (cases "obj_get (position s) (source link)") (simp_all add: applyHit_def)
  from assms ws a obtain b where b: "obj_get (position s) (entity_id tgt) = Some b"
    by (cases "obj_get (position s) (entity_id tgt)") (simp_all add: applyHit_def)
  from assms ws a b obtain r where r: "map_of WeaponRangeConfig (weaponType wpn) = Some r"
    by (cases "map_of WeaponRangeConfig (weaponType wpn)") (simp_all add: applyHit_def)
  from assms ws a b r obtain p
    where p: "calculateHitProbability (distanceBetween a b) (snd r) (accuracy ws) = Inr p"
    by (cases "calculateHitProbability (distanceBetween a b) (snd r) (accuracy ws)")
      (simp_all add: applyHit_def)
  show ?thesis
  proof (cases "rnd (randomCalls s) < p")
    case False
    with assms ws a b r p show ?thesis
      by (simp add: applyHit_def)
  next
    case True
    with assms ws a b r p obtain h where h: "obj_get (health s) (entity_id tgt) = Some h"
      by (cases "obj_get (health s) (entity_id tgt)") (simp_all add: applyHit_def)
    let ?v = "health_value h - damage ws"
    show ?thesis
    proof (cases "?v \<le> 0")
      case dead: True
      with assms ws a b r p True h have "s' = killEntity tgt (afterHit s tgt h ?v)"
        by (simp add: applyHit_def afterHit_def Let_def)
      with h dead show ?thesis by blast
    next
      case alive: False
      with assms ws a b r p True h have "s' = afterHit s tgt h ?v"
        by (simp add: applyHit_def afterHit_def Let_def)
      with h alive show ?thesis by force
    qed
  qed
qed

lemma resolveLink_cases:
  assumes "resolveLink rnd k s = Inr s'"
  shows "s' = s \<or> s' = s\<lparr>randomCalls := Suc (randomCalls s)\<rparr>
    \<or> (\<exists>tgt \<in> set (entities s). \<exists>h v. obj_get (health s) (entity_id tgt) = Some h
          \<and> (0 < v \<and> s' = afterHit s tgt h v
              \<or> v \<le> 0 \<and> s' = killEntity tgt (afterHit s tgt h v)))"
proof (cases "obj_get (targeting s) k")
  case None
  with assms show ?thesis by (simp add: resolveLink_def)
next
  case (Some link)
  show ?thesis
  proof (cases "enabled link")
    case False
    with assms Some show ?thesis by (simp add: resolveLink_def)
  next
    case True
    show ?thesis
    proof (cases "obj_get (weapon s) k")
      case None
      with assms Some True show ?thesis by (simp add: resolveLink_def)
    next
      case wpn: (Some wpn)
      show ?thesis
      proof (cases "find (\<lambda>e. entity_id e = target link) (entities s)")
        case None
        with assms Some True wpn show ?thesis by (simp add: resolveLink_def)
      next
        case tgt: (Some tgt)
        then have mem: "tgt \<in> set (entities s)"
          by (auto simp: find_Some_iff)
        from assms Some True wpn tgt have "applyHit rnd link wpn tgt s = Inr s'"
          by (simp add: resolveLink_def)
        from applyHit_cases [OF this] mem show ?thesis by blast
      qed
    qed
  qed
qed

lemma purged_killEntity: "purged (killEntity e s) (entity_id e)"
  by (simp add: purged_def killEntity_def)

lemma purged_kept_killEntity: "purged s i \<Longrightarrow> purged (killEntity e s) i"
  by (simp add: purged_def killEntity_def)

lemma purged_kept_afterHit:
  "purged s i \<Longrightarrow> obj_get (health s) (entity_id tgt) = Some h \<Longrightarrow> purged (afterHit s tgt h v) i"
  by (auto simp: purged_def afterHit_def)

lemma resolveLink_keeps_purged:
  assumes "purged s i" and "resolveLink rnd k s = Inr s'"
  shows "purged s' i"
proof -
  from resolveLink_cases [OF assms(2)]
  consider "s' = s" | "s' = s\<lparr>randomCalls := Suc (randomCalls s)\<rparr>"
    | tgt h v where "obj_get (health s) (entity_id tgt) = Some h" "s' = afterHit s tgt h v"
    | tgt h v where "obj_get (health s) (entity_id tgt) = Some h"
        "s' = killEntity tgt (afterHit s tgt h v)"
    by blast
  then show ?thesis
  proof cases
    case 1
    with assms(1) show ?thesis by simp
  next
    case 2
    with assms(1) show ?thesis by (simp add: purged_def)
  next
    case 3
    with assms(1) show ?thesis by (simp add: purged_kept_afterHit)
  next
    case 4
    with assms(1) show ?thesis by (simp add: purged_kept_afterHit purged_kept_killEntity)
  qed
qed

lemma entities_killEntity:
  "e \<in> set (entities s) \<Longrightarrow> entities (killEntity e s) = remove1 e (entities s)"
  by (simp add: killEntity_def)

lemma resolveLink_removed_purged:
  assumes "resolveLink rnd k s = Inr s'"
  shows "removedArePurged s s'"
proof -
  from resolveLink_cases [OF assms]
  consider "entities s' = entities s"
    | tgt h v where "tgt \<in> set (entities s)" "s' = killEntity tgt (afterHit s tgt h v)"
    by (auto simp: afterHit_def)
  then show ?thesis
  proof cases
    case 1
    then show ?thesis by (simp add: removedArePurged_def list_all_iff)
  next
    case 2
    have ents: "entities s' = remove1 tgt (entities s)"
      using 2 by (simp add: killEntity_def afterHit_def)
    have "e \<in> set (entities s') \<or> purged s' (entity_id e)" if "e \<in> set (entities s)" for e
    proof (cases "e = tgt")
      case True
      then show ?thesis using 2(2) by (simp add: purged_killEntity)
    next
      case False
      with that ents show ?thesis by simp
    qed
    then show ?thesis by (simp add: removedArePurged_def list_all_iff)
  qed
qed

lemma resolveLinks_invariant:
  assumes step: "\<And>k t t'. P t \<Longrightarrow> resolveLink rnd k t = Inr t' \<Longrightarrow> P t'"
    and "P s" and "resolveLinks rnd ks s = Inr s'"
  shows "P s'"
  using assms
proof (induction ks arbitrary: s)
  case Nil
  then show ?case by simp
next
  case (Cons k ks)
  from Cons.prems obtain t where t: "resolveLink rnd k s = Inr t"
    and rest: "resolveLinks rnd ks t = Inr s'"
    by (auto split: sum.splits)
  have "P t" using Cons.prems(1) [of s k t] t Cons.prems(2) by simp
  with Cons.IH [of t] Cons.prems(1) rest show ?case by auto
qed

lemma removedArePurged_step:
  assumes "removedArePurged s t" and "resolveLink rnd k t = Inr t'"
  shows "removedArePurged s t'"
proof -
  have "e \<in> set (entities t') \<or> purged t' (entity_id e)" if "e \<in> set (entities s)" for e
  proof -
    from that assms(1) consider "e \<in> set (entities t)" | "purged t (entity_id e)"
      by (auto simp: removedArePurged_def list_all_iff)
    then show ?thesis
    proof cases
      case 1
      with resolveLink_removed_purged [OF assms(2)] show ?thesis
        by (simp add: removedArePurged_def list_all_iff)
    next
      case 2
      then show ?thesis using resolveLink_keeps_purged [OF _ assms(2)] by simp
    qed
  qed
  then show ?thesis by (simp add: removedArePurged_def list_all_iff)
qed

lemma damage_removed_purged:
  assumes "DamageSystem_update rnd s = Inr s'"
  shows "removedArePurged s s'"
proof (rule resolveLinks_invariant [where P = "removedArePurged s" and rnd = rnd])
  show "removedArePurged s s" by (simp add: removedArePurged_def list_all_iff)
  show "resolveLinks rnd (obj_keys (targeting s)) s = Inr s'"
    using assms by (simp add: DamageSystem_update_def)
next
  fix k t t'
  assume "removedArePurged s t" "resolveLink rnd k t = Inr t'"
  then show "removedArePurged s t'" by (rule removedArePurged_step)
qed

subsection \<open>Spawn helpers, step by step\<close>

lemma addAgent_unfold:
  "addAgent rnd s =
     andThen (addWeaponToEntity (nodeId s) ''rifle'' (agentShell rnd s))
       (\<lambda>s7. addWeaponToEntity (nodeId s) (pick WeaponTypes (rnd (randomCalls s7)))
                (s7\<lparr>randomCalls := Suc (randomCalls s7)\<rparr>))"
  by (simp add: addAgent_def addEntity_def random_def EntityStats_def agentShell_def)

lemma addEnemy_unfold:
  "addEnemy rnd s =
    (let choice = pick EnemyTypes (rnd (randomCalls s))
     in case map_of EntityStats choice of
          None \<Rightarrow> Inl TypeError
        | Some h \<Rightarrow>
            andThen (addWeaponIf (hasEmptySlot (nodeId s) (enemyShell rnd s h)) (nodeId s)
                      ''laser'' (enemyShell rnd s h))
              (\<lambda>s8. andThen
                 (addWeaponIf (hasEmptySlot (nodeId s) s8 \<and> choice = ''devastator'')
                    (nodeId s) ''rocket'' s8)
              (\<lambda>s9. andThen
                 (addWeaponIf (hasEmptySlot (nodeId s) s9 \<and> choice = ''tank'')
                    (nodeId s) ''cannon'' s9)
              (\<lambda>s10. andThen
                 (addWeaponIf (hasEmptySlot (nodeId s) s10) (nodeId s) ''melee'' s10)
              (\<lambda>s11. Inr (addTargetParts rnd (nodeId s)
                  (case map_of EnemyPartsConfig choice of
                     None \<Rightarrow> [] | Some parts \<Rightarrow> parts) s11))))))"
  by (simp add: addEnemy_def addEntity_def random_def enemyShell_def Let_def
      split: option.splits)


subsection \<open>Spawn helpers leave the entity list alone\<close>

lemma fillFirstEmpty_length:
  "fillFirstEmpty ws w = Some ws' \<Longrightarrow> length ws' = length ws"
proof (induction ws w arbitrary: ws' rule: fillFirstEmpty.induct)
  case (1 weaponId)
  then show ?case by simp
next
  case (2 rest weaponId)
  then show ?case by auto
next
  case (3 w rest weaponId)
  then show ?case by (auto split: option.splits)
qed

lemma fillFirstEmpty_full:
  "list_all (\<lambda>w. w \<noteq> None) ws \<Longrightarrow> fillFirstEmpty ws w = None"
  by (induction ws w rule: fillFirstEmpty.induct) auto

lemma addWeapon_length:
  "addWeapon slots w = (slots', warnings) \<Longrightarrow>
     length (weaponIds slots') = length (weaponIds slots)"
  by (auto simp: addWeapon_def fillFirstEmpty_length split: option.splits)

lemma addWeapon_full:
  "list_all (\<lambda>w. w \<noteq> None) (weaponIds slots) \<Longrightarrow>
     addWeapon slots w = (slots, [''Entity has no available weapon slots.''])"
  by (simp add: addWeapon_def fillFirstEmpty_full)

lemma addWeaponToEntity_run:
  assumes "obj_get (position s) entityId = Some p"
    and "obj_get (weaponSlots s) entityId = Some slots"
  shows "addWeaponToEntity entityId wt s =
    Inr (weaponAdded entityId wt p slots s)"
  using assms by (simp add: addWeaponToEntity_def weaponAdded_def split_beta Let_def)

lemma addWeaponToEntity_Inr:
  assumes "addWeaponToEntity entityId wt s = Inr s'"
  shows "\<exists>p slots. obj_get (position s) entityId = Some p
    \<and> obj_get (weaponSlots s) entityId = Some slots
    \<and> s' = weaponAdded entityId wt p slots s"
proof -
  from assms obtain p where p: "obj_get (position s) entityId = Some p"
    by (cases "obj_get (position s) entityId") (simp_all add: addWeaponToEntity_def Let_def)
  from assms p obtain slots where slots: "obj_get (weaponSlots s) entityId = Some slots"
    by (cases "obj_get (weaponSlots s) entityId") (simp_all add: addWeaponToEntity_def Let_def)
  from assms addWeaponToEntity_run [OF p slots, of wt] p slots show ?thesis by simp
qed

lemma addTargetPartToEntity_eq:
  "addTargetPartToEntity rnd enemyId pt s =
    s\<lparr>nodeId := Suc (nodeId s),
      randomCalls := Suc (Suc (randomCalls s)),
      position := obj_set (position s) (nodeId s)
         \<lparr>pos_x = rnd (randomCalls s) * 800, pos_y = rnd (Suc (randomCalls s)) * 600\<rparr>,
      health := obj_set (health s) (nodeId s) \<lparr>health_value = 10\<rparr>,
      targetPartType := obj_set (targetPartType s) (nodeId s)
         \<lparr>partType = pt, parentEntityId = Num enemyId\<rparr>\<rparr>"
  by (simp add: addTargetPartToEntity_def random_def Let_def)

subsection \<open>What every reachable state satisfies\<close>

lemma reachInvariant_frame:
  assumes "reachInvariant s" and "entities s' = entities s" and "nodeId s \<le> nodeId s'"
    and "\<And>e. e \<in> set (entities s) \<Longrightarrow>
       (case obj_get (weaponSlots s') (entity_id e) of None \<Rightarrow> True
        | Some slots' \<Rightarrow> \<exists>slots. obj_get (weaponSlots s) (entity_id e) = Some slots
            \<and> length (weaponIds slots') = length (weaponIds slots))"
  shows "reachInvariant s'"
proof -
  have a: "onlyAgentsAndEnemies s'"
    using assms(1,2) by (simp add: reachInvariant_def onlyAgentsAndEnemies_def)
  have b: "idsBelowCounter s'"
    using assms(1,2,3) by (auto simp: reachInvariant_def idsBelowCounter_def list_all_iff)
  have "case obj_get (weaponSlots s') (entity_id e) of None \<Rightarrow> True
        | Some slots \<Rightarrow> length (weaponIds slots) = slotCapacity (entity_type e)
            \<and> length (filter (\<lambda>w. w \<noteq> None) (weaponIds slots)) \<le> slotCapacity (entity_type e)"
    if e: "e \<in> set (entities s)" for e
  proof (cases "obj_get (weaponSlots s') (entity_id e)")
    case None
    then show ?thesis by simp
  next
    case (Some slots')
    with assms(4) [OF e] obtain slots where
      old: "obj_get (weaponSlots s) (entity_id e) = Some slots"
      and len: "length (weaponIds slots') = length (weaponIds slots)"
      by auto
    from assms(1) e old have "length (weaponIds slots) = slotCapacity (entity_type e)"
      by (auto simp: reachInvariant_def slotsWithinCapacity_def list_all_iff)
    with len have "length (weaponIds slots') = slotCapacity (entity_type e)" by simp
    moreover have "length (filter (\<lambda>w. w \<noteq> None) (weaponIds slots')) \<le> length (weaponIds slots')"
      by (rule length_filter_le)
    ultimately show ?thesis using Some by simp
  qed
  then have c: "slotsWithinCapacity s'"
    using assms(2) by (simp add: slotsWithinCapacity_def list_all_iff)
  from a b c show ?thesis by (simp add: reachInvariant_def)
qed

lemma addWeaponToEntity_reachInvariant:
  assumes "reachInvariant s" and "addWeaponToEntity entityId wt s = Inr s'"
  shows "reachInvariant s'"
proof -
  from addWeaponToEntity_Inr [OF assms(2)] obtain p slots where
    slots: "obj_get (weaponSlots s) entityId = Some slots"
    and s': "s' = weaponAdded entityId wt p slots s"
    by blast
  have len: "length (weaponIds (fst (addWeapon slots (nodeId s)))) = length (weaponIds slots)"
    using addWeapon_length [of slots "nodeId s"] by (cases "addWeapon slots (nodeId s)") simp
  show ?thesis
  proof (rule reachInvariant_frame [OF assms(1)])
    show "entities s' = entities s" by (simp add: s' weaponAdded_def)
    show "nodeId s \<le> nodeId s'" by (simp add: s' weaponAdded_def)
  next
    fix e assume "e \<in> set (entities s)"
    show "case obj_get (weaponSlots s') (entity_id e) of None \<Rightarrow> True
        | Some slots' \<Rightarrow> \<exists>slots. obj_get (weaponSlots s) (entity_id e) = Some slots
            \<and> length (weaponIds slots') = length (weaponIds slots)"
      using slots len by (auto simp: s' weaponAdded_def split: option.splits)
  qed
qed

lemma addWeaponIf_reachInvariant:
  "reachInvariant s \<Longrightarrow> addWeaponIf c entityId wt s = Inr s' \<Longrightarrow> reachInvariant s'"
  by (cases c) (auto simp: addWeaponIf_def addWeaponToEntity_reachInvariant)

lemma reachInvariant_randomCalls:
  "reachInvariant s \<Longrightarrow> reachInvariant (s\<lparr>randomCalls := n\<rparr>)"
  by (rule reachInvariant_frame) (auto split: option.splits)

lemma addTargetPartToEntity_reachInvariant:
  "reachInvariant s \<Longrightarrow> reachInvariant (addTargetPartToEntity rnd enemyId pt s)"
  by (rule reachInvariant_frame) (auto simp: addTargetPartToEntity_eq split: option.splits)

lemma addTargetParts_reachInvariant:
  "reachInvariant s \<Longrightarrow> reachInvariant (addTargetParts rnd enemyId parts s)"
  by (induction parts arbitrary: s) (simp_all add: addTargetPartToEntity_reachInvariant)

lemma reachInvariant_shell:
  assumes inv: "reachInvariant s"
    and ents: "entities s' = entities s @
      [\<lparr>entity_id = nodeId s, entity_type = ty, entity_components_targetPartType = None\<rparr>]"
    and ty: "ty = AGENT \<or> ty = ENEMY"
    and cnt: "nodeId s' = Suc (nodeId s)"
    and slots: "weaponSlots s' = obj_set (weaponSlots s) (nodeId s)
      \<lparr>weaponIds = replicate (slotCapacity ty) None\<rparr>"
  shows "reachInvariant s'"
proof -
  from inv have old: "onlyAgentsAndEnemies s" "idsBelowCounter s" "slotsWithinCapacity s"
    by (simp_all add: reachInvariant_def)
  have a: "onlyAgentsAndEnemies s'"
    using old(1) ty by (auto simp: onlyAgentsAndEnemies_def ents)
  have b: "idsBelowCounter s'"
    using old(2) by (auto simp: idsBelowCounter_def ents cnt list_all_iff)
  have c: "slotsWithinCapacity s'"
    using old(2,3)
    by (auto simp: slotsWithinCapacity_def idsBelowCounter_def ents slots list_all_iff
        split: option.splits)
  from a b c show ?thesis by (simp add: reachInvariant_def)
qed

lemma agentShell_reachInvariant: "reachInvariant s \<Longrightarrow> reachInvariant (agentShell rnd s)"
  by (rule reachInvariant_shell [where ty = AGENT])
    (simp_all add: agentShell_def slotCapacity_def)

lemma enemyShell_reachInvariant: "reachInvariant s \<Longrightarrow> reachInvariant (enemyShell rnd s h)"
  by (rule reachInvariant_shell [where ty = ENEMY])
    (simp_all add: enemyShell_def slotCapacity_def)

lemma addAgent_reachInvariant:
  assumes "reachInvariant s" and "addAgent rnd s = Inr s'"
  shows "reachInvariant s'"
proof -
  from assms(2) obtain s7 where
    s7: "addWeaponToEntity (nodeId s) ''rifle'' (agentShell rnd s) = Inr s7"
    and s': "addWeaponToEntity (nodeId s) (pick WeaponTypes (rnd (randomCalls s7)))
                (s7\<lparr>randomCalls := Suc (randomCalls s7)\<rparr>) = Inr s'"
    by (auto simp: addAgent_unfold andThen_def split: sum.splits)
  have "reachInvariant s7"
    using addWeaponToEntity_reachInvariant [OF agentShell_reachInvariant [OF assms(1)] s7] .
  then have "reachInvariant (s7\<lparr>randomCalls := Suc (randomCalls s7)\<rparr>)"
    by (rule reachInvariant_randomCalls)
  then show ?thesis
    using addWeaponToEntity_reachInvariant s' by blast
qed

lemma addEnemy_reachInvariant:
  assumes "reachInvariant s" and "addEnemy rnd s = Inr s'"
  shows "reachInvariant s'"
proof -
  let ?c = "pick EnemyTypes (rnd (randomCalls s))"
  from assms(2) obtain h where h: "map_of EntityStats ?c = Some h"
    by (cases "map_of EntityStats ?c") (simp_all add: addEnemy_unfold Let_def)
  let ?s7 = "enemyShell rnd s h"
  from assms(2) h obtain s8 s9 s10 s11 where
    s8: "addWeaponIf (hasEmptySlot (nodeId s) ?s7) (nodeId s) ''laser'' ?s7 = Inr s8"
    and s9: "addWeaponIf (hasEmptySlot (nodeId s) s8 \<and> ?c = ''devastator'') (nodeId s)
               ''rocket'' s8 = Inr s9"
    and s10: "addWeaponIf (hasEmptySlot (nodeId s) s9 \<and> ?c = ''tank'') (nodeId s)
               ''cannon'' s9 = Inr s10"
    and s11: "addWeaponIf (hasEmptySlot (nodeId s) s10) (nodeId s) ''melee'' s10 = Inr s11"
    and s': "s' = addTargetParts rnd (nodeId s)
               (case map_of EnemyPartsConfig ?c of None \<Rightarrow> [] | Some parts \<Rightarrow> parts) s11"
    by (auto simp: addEnemy_unfold Let_def andThen_def split: sum.splits)
  have "reachInvariant ?s7" using assms(1) by (rule enemyShell_reachInvariant)
  then have "reachInvariant s8" using s8 by (rule addWeaponIf_reachInvariant)
  then have "reachInvariant s9" using s9 by (rule addWeaponIf_reachInvariant)
  then have "reachInvariant s10" using s10 by (rule addWeaponIf_reachInvariant)
  then have "reachInvariant s11" using s11 by (rule addWeaponIf_reachInvariant)
  then show ?thesis unfolding s' by (rule addTargetParts_reachInvariant)
qed


lemma sameStore_reachInvariant:
  assumes "reachInvariant s" and "sameStore s t"
  shows "reachInvariant t"
proof -
  have eq: "t\<lparr>targeting := []\<rparr> = s\<lparr>targeting := []\<rparr>"
    using assms(2) by (simp add: sameStore_def)
  have n: "nodeId t = nodeId s" using arg_cong [OF eq, of nodeId] by simp
  note f = sameStore_fields [OF assms(2)]
  show ?thesis
    using assms(1) n f(1,2)
    by (simp add: reachInvariant_def onlyAgentsAndEnemies_def idsBelowCounter_def
        slotsWithinCapacity_def)
qed

lemma reachInvariant_afterHit:
  "reachInvariant s \<Longrightarrow> reachInvariant (afterHit s tgt h v)"
  by (rule reachInvariant_frame) (auto simp: afterHit_def split: option.splits)

lemma reachInvariant_killEntity:
  assumes "reachInvariant s" and "tgt \<in> set (entities s)"
  shows "reachInvariant (killEntity tgt s)"
proof -
  let ?s' = "killEntity tgt s"
  have ents: "entities ?s' = remove1 tgt (entities s)"
    using assms(2) by (simp add: killEntity_def)
  have sub: "set (entities ?s') \<subseteq> set (entities s)"
    using set_remove1_subset [of tgt "entities s"] by (simp add: ents)
  from assms(1) have old: "onlyAgentsAndEnemies s" "idsBelowCounter s" "slotsWithinCapacity s"
    by (simp_all add: reachInvariant_def)
  have a: "onlyAgentsAndEnemies ?s'"
    using old(1) sub by (auto simp: onlyAgentsAndEnemies_def list_all_iff)
  have n: "nodeId ?s' = nodeId s" by (simp add: killEntity_def)
  have b: "idsBelowCounter ?s'"
    using old(2) sub by (auto simp: idsBelowCounter_def list_all_iff n)
  have w: "obj_get (weaponSlots ?s') i
      = (if i = entity_id tgt then None else obj_get (weaponSlots s) i)" for i
    by (simp add: killEntity_def)
  have c: "slotsWithinCapacity ?s'"
    using old(3) sub by (auto simp: slotsWithinCapacity_def list_all_iff w)
  from a b c show ?thesis by (simp add: reachInvariant_def)
qed

lemma resolveLink_reachInvariant:
  assumes "reachInvariant s" and "resolveLink rnd k s = Inr s'"
  shows "reachInvariant s'"
proof -
  from resolveLink_cases [OF assms(2)]
  consider "s' = s" | "s' = s\<lparr>randomCalls := Suc (randomCalls s)\<rparr>"
    | tgt h v where "s' = afterHit s tgt h v"
    | tgt h v where "tgt \<in> set (entities s)" "s' = killEntity tgt (afterHit s tgt h v)"
    by blast
  then show ?thesis
  proof cases
    case 1
    with assms(1) show ?thesis by simp
  next
    case 2
    with assms(1) show ?thesis by (simp add: reachInvariant_randomCalls)
  next
    case 3
    with assms(1) show ?thesis by (simp add: reachInvariant_afterHit)
  next
    case 4
    have "tgt \<in> set (entities (afterHit s tgt h v))"
      using 4(1) by (simp add: afterHit_def)
    with assms(1) 4(2) show ?thesis
      by (simp add: reachInvariant_afterHit reachInvariant_killEntity)
  qed
qed

lemma update_reachInvariant:
  assumes "reachInvariant s" and "EntityComponentSystem_update rnd s = Inr s'"
  shows "reachInvariant s'"
proof -
  from assms(2) obtain t where t: "WeaponAssignmentSystem_update s = Inr t"
    and d: "DamageSystem_update rnd t = Inr s'"
    by (auto simp: EntityComponentSystem_update_def andThen_def split: sum.splits)
  have "sameStore s t"
    using update_passInvariant [OF t] by (simp add: passInvariant_def)
  with assms(1) have it: "reachInvariant t" by (rule sameStore_reachInvariant)
  show ?thesis
  proof (rule resolveLinks_invariant [where P = reachInvariant and rnd = rnd, OF _ it])
    show "resolveLinks rnd (obj_keys (targeting t)) t = Inr s'"
      using d by (simp add: DamageSystem_update_def)
  next
    fix k u u'
    assume "reachInvariant u" "resolveLink rnd k u = Inr u'"
    then show "reachInvariant u'" by (rule resolveLink_reachInvariant)
  qed
qed

lemma reachable_reachInvariant: "reachable rnd s \<Longrightarrow> reachInvariant s"
proof (induction rule: reachable.induct)
  case reachable_initial
  show ?case
    by (simp add: reachInvariant_def onlyAgentsAndEnemies_def idsBelowCounter_def
        slotsWithinCapacity_def initialWorld_def)
next
  case (reachable_addAgent s s')
  then show ?case using addAgent_reachInvariant by blast
next
  case (reachable_addEnemy s s')
  then show ?case using addEnemy_reachInvariant by blast
next
  case (reachable_toggleEnemy s)
  from reachable_toggleEnemy.IH show ?case
    by (rule reachInvariant_frame)
      (auto simp: toggleEnemyTargeting_def Let_def split: option.splits)
next
  case (reachable_toggleAgent s)
  from reachable_toggleAgent.IH show ?case
    by (rule reachInvariant_frame)
      (auto simp: toggleAgentTargeting_def Let_def split: option.splits)
next
  case (reachable_update s s')
  then show ?case using update_reachInvariant by blast
qed

lemma find_only_agents_and_enemies:
  assumes "onlyAgentsAndEnemies s" and "find P (entities s) = Some e"
  shows "entity_type e = AGENT \<or> entity_type e = ENEMY"
proof -
  from assms(2) have "e \<in> set (entities s)"
    by (auto simp: find_Some_iff)
  with assms(1) show ?thesis
    by (simp add: onlyAgentsAndEnemies_def list_all_iff)
qed

lemma no_specific_match:
  assumes "onlyAgentsAndEnemies s"
  shows "find (specificMatch s w tt pt) (entities s) = None"
proof (cases "find (specificMatch s w tt pt) (entities s)")
  case None
  then show ?thesis .
next
  case (Some e)
  then have "specificMatch s w tt pt e" by (auto simp: find_Some_iff)
  then have "entity_type e = TARGET_PART" by (simp add: specificMatch_def)
  with find_only_agents_and_enemies [OF assms Some] show ?thesis by simp
qed

subsection \<open>Every entity of the store is alive\<close>

lemma distinct_ids_remove1:
  "distinct (map entity_id es) \<Longrightarrow> distinct (map entity_id (remove1 x es))"
proof (induction es)
  case Nil
  then show ?case by simp
next
  case (Cons e es)
  have "set (remove1 x es) \<subseteq> set es" by (rule set_remove1_subset)
  with Cons show ?case by auto
qed

lemma allAlive_afterHit:
  assumes "allAlive s" and "0 < v"
  shows "allAlive (afterHit s tgt h v)"
  using assms by (auto simp: allAlive_def afterHit_def list_all_iff split: option.splits)

lemma allAlive_kill:
  assumes "allAlive s" and "tgt \<in> set (entities s)"
  shows "allAlive (killEntity tgt (afterHit s tgt h v))"
proof -
  let ?s' = "killEntity tgt (afterHit s tgt h v)"
  from assms(1) have d: "distinct (map entity_id (entities s))"
    and pos: "\<forall>e \<in> set (entities s). case obj_get (health s) (entity_id e) of
        None \<Rightarrow> False | Some x \<Rightarrow> 0 < health_value x"
    by (simp_all add: allAlive_def list_all_iff)
  have ents: "entities ?s' = remove1 tgt (entities s)"
    using assms(2) by (simp add: killEntity_def afterHit_def)
  have d': "distinct (map entity_id (entities ?s'))"
    using d by (simp add: ents distinct_ids_remove1)
  from d have de: "distinct (entities s)" by (simp add: distinct_map)
  have "case obj_get (health ?s') (entity_id e) of None \<Rightarrow> False | Some x \<Rightarrow> 0 < health_value x"
    if e: "e \<in> set (entities ?s')" for e
  proof -
    from e ents de have mem: "e \<in> set (entities s)" and ne: "e \<noteq> tgt" by auto
    from d mem assms(2) ne have "entity_id e \<noteq> entity_id tgt"
      by (auto simp: distinct_map dest: inj_onD)
    with pos mem show ?thesis
      by (auto simp: killEntity_def afterHit_def)
  qed
  with d' show ?thesis by (simp add: allAlive_def list_all_iff)
qed

lemma resolveLink_allAlive:
  assumes "allAlive s" and "resolveLink rnd k s = Inr s'"
  shows "allAlive s'"
proof -
  from resolveLink_cases [OF assms(2)]
  consider "s' = s" | "s' = s\<lparr>randomCalls := Suc (randomCalls s)\<rparr>"
    | tgt h v where "0 < v" "s' = afterHit s tgt h v"
    | tgt h v where "tgt \<in> set (entities s)" "s' = killEntity tgt (afterHit s tgt h v)"
    by blast
  then show ?thesis
  proof cases
    case 1
    with assms(1) show ?thesis by simp
  next
    case 2
    with assms(1) show ?thesis by (simp add: allAlive_def)
  next
    case 3
    with assms(1) show ?thesis by (simp add: allAlive_afterHit)
  next
    case 4
    with assms(1) show ?thesis by (simp add: allAlive_kill)
  qed
qed

lemma damage_allAlive:
  assumes "allAlive s" and "DamageSystem_update rnd s = Inr s'"
  shows "allAlive s'"
proof (rule resolveLinks_invariant [where P = allAlive and rnd = rnd, OF _ assms(1)])
  show "resolveLinks rnd (obj_keys (targeting s)) s = Inr s'"
    using assms(2) by (simp add: DamageSystem_update_def)
next
  fix k t t'
  assume "allAlive t" "resolveLink rnd k t = Inr t'"
  then show "allAlive t'" by (rule resolveLink_allAlive)
qed

lemma allAlive_frame:
  assumes "allAlive s" and "entities s' = entities s"
    and "\<And>e. e \<in> set (entities s) \<Longrightarrow>
       obj_get (health s') (entity_id e) = obj_get (health s) (entity_id e)
       \<or> (\<exists>h. obj_get (health s') (entity_id e) = Some h \<and> 0 < health_value h)"
  shows "allAlive s'"
proof -
  have "case obj_get (health s') (entity_id e) of None \<Rightarrow> False | Some x \<Rightarrow> 0 < health_value x"
    if e: "e \<in> set (entities s)" for e
  proof -
    from assms(1) e have "case obj_get (health s) (entity_id e) of
        None \<Rightarrow> False | Some x \<Rightarrow> 0 < health_value x"
      by (simp add: allAlive_def list_all_iff)
    with assms(3) [OF e] show ?thesis by auto
  qed
  with assms(1,2) show ?thesis by (simp add: allAlive_def list_all_iff)
qed

lemma allAlive_shell:
  assumes alive: "allAlive s" and below: "idsBelowCounter s"
    and ents: "entities s' = entities s @
      [\<lparr>entity_id = nodeId s, entity_type = ty, entity_components_targetPartType = None\<rparr>]"
    and hl: "health s' = obj_set (health s) (nodeId s) \<lparr>health_value = h\<rparr>" and h: "0 < h"
  shows "allAlive s'"
proof -
  from below have fresh: "\<forall>e \<in> set (entities s). entity_id e \<noteq> nodeId s"
    by (auto simp: idsBelowCounter_def list_all_iff)
  from alive have d: "distinct (map entity_id (entities s))"
    and pos: "\<forall>e \<in> set (entities s). case obj_get (health s) (entity_id e) of
        None \<Rightarrow> False | Some x \<Rightarrow> 0 < health_value x"
    by (simp_all add: allAlive_def list_all_iff)
  have d': "distinct (map entity_id (entities s'))"
    using d fresh by (auto simp: ents)
  have "list_all (\<lambda>e. case obj_get (health s') (entity_id e) of
        None \<Rightarrow> False | Some x \<Rightarrow> 0 < health_value x) (entities s')"
    using pos fresh h by (auto simp: ents hl list_all_iff)
  with d' show ?thesis by (simp add: allAlive_def)
qed

lemma entityStats_positive: "map_of EntityStats c = Some h \<Longrightarrow> 0 < h"
  by (auto simp: EntityStats_def split: if_splits)

lemma addWeaponToEntity_allAlive:
  assumes "allAlive s" and "addWeaponToEntity entityId wt s = Inr s'"
  shows "allAlive s'"
proof -
  from addWeaponToEntity_Inr [OF assms(2)] obtain p slots where
    s': "s' = weaponAdded entityId wt p slots s" by blast
  show ?thesis
    by (rule allAlive_frame [OF assms(1)]) (simp_all add: s' weaponAdded_def)
qed

lemma addWeaponIf_allAlive:
  "allAlive s \<Longrightarrow> addWeaponIf c entityId wt s = Inr s' \<Longrightarrow> allAlive s'"
  by (cases c) (auto simp: addWeaponIf_def addWeaponToEntity_allAlive)

lemma addTargetPartToEntity_allAlive:
  "allAlive s \<Longrightarrow> allAlive (addTargetPartToEntity rnd enemyId pt s)"
  by (rule allAlive_frame) (auto simp: addTargetPartToEntity_eq)

lemma addTargetParts_allAlive:
  "allAlive s \<Longrightarrow> allAlive (addTargetParts rnd enemyId parts s)"
  by (induction parts arbitrary: s) (simp_all add: addTargetPartToEntity_allAlive)

lemma addAgent_allAlive:
  assumes "allAlive s" and "idsBelowCounter s" and "addAgent rnd s = Inr s'"
  shows "allAlive s'"
proof -
  from assms(3) obtain s7 where
    s7: "addWeaponToEntity (nodeId s) ''rifle'' (agentShell rnd s) = Inr s7"
    and s': "addWeaponToEntity (nodeId s) (pick WeaponTypes (rnd (randomCalls s7)))
                (s7\<lparr>randomCalls := Suc (randomCalls s7)\<rparr>) = Inr s'"
    by (auto simp: addAgent_unfold andThen_def split: sum.splits)
  have "allAlive (agentShell rnd s)"
    by (rule allAlive_shell [OF assms(1,2), where ty = AGENT and h = 100])
      (simp_all add: agentShell_def)
  then have "allAlive s7" using s7 by (rule addWeaponToEntity_allAlive)
  then have "allAlive (s7\<lparr>randomCalls := Suc (randomCalls s7)\<rparr>)"
    by (simp add: allAlive_def)
  then show ?thesis using s' by (rule addWeaponToEntity_allAlive)
qed

lemma addEnemy_allAlive:
  assumes "allAlive s" and "idsBelowCounter s" and "addEnemy rnd s = Inr s'"
  shows "allAlive s'"
proof -
  let ?c = "pick EnemyTypes (rnd (randomCalls s))"
  from assms(3) obtain h where h: "map_of EntityStats ?c = Some h"
    by (cases "map_of EntityStats ?c") (simp_all add: addEnemy_unfold Let_def)
  let ?s7 = "enemyShell rnd s h"
  from assms(3) h obtain s8 s9 s10 s11 where
    s8: "addWeaponIf (hasEmptySlot (nodeId s) ?s7) (nodeId s) ''laser'' ?s7 = Inr s8"
    and s9: "addWeaponIf (hasEmptySlot (nodeId s) s8 \<and> ?c = ''devastator'') (nodeId s)
               ''rocket'' s8 = Inr s9"
    and s10: "addWeaponIf (hasEmptySlot (nodeId s) s9 \<and> ?c = ''tank'') (nodeId s)
               ''cannon'' s9 = Inr s10"
    and s11: "addWeaponIf (hasEmptySlot (nodeId s) s10) (nodeId s) ''melee'' s10 = Inr s11"
    and s': "s' = addTargetParts rnd (nodeId s)
               (case map_of EnemyPartsConfig ?c of None \<Rightarrow> [] | Some parts \<Rightarrow> parts) s11"
    by (auto simp: addEnemy_unfold Let_def andThen_def split: sum.splits)
  have "allAlive ?s7"
    by (rule allAlive_shell [OF assms(1,2), where ty = ENEMY and h = h])
      (simp_all add: enemyShell_def entityStats_positive [OF h])
  then have "allAlive s8" using s8 by (rule addWeaponIf_allAlive)
  then have "allAlive s9" using s9 by (rule addWeaponIf_allAlive)
  then have "allAlive s10" using s10 by (rule addWeaponIf_allAlive)
  then have "allAlive s11" using s11 by (rule addWeaponIf_allAlive)
  then show ?thesis unfolding s' by (rule addTargetParts_allAlive)
qed

lemma sameStore_allAlive:
  assumes "allAlive s" and "sameStore s t"
  shows "allAlive t"
proof -
  have eq: "t\<lparr>targeting := []\<rparr> = s\<lparr>targeting := []\<rparr>"
    using assms(2) by (simp add: sameStore_def)
  have h: "health t = health s" using arg_cong [OF eq, of health] by simp
  show ?thesis
    using assms(1) h sameStore_fields(1) [OF assms(2)] by (simp add: allAlive_def)
qed

lemma update_allAlive:
  assumes "allAlive s" and "EntityComponentSystem_update rnd s = Inr s'"
  shows "allAlive s'"
proof -
  from assms(2) obtain t where t: "WeaponAssignmentSystem_update s = Inr t"
    and d: "DamageSystem_update rnd t = Inr s'"
    by (auto simp: EntityComponentSystem_update_def andThen_def split: sum.splits)
  have "sameStore s t"
    using update_passInvariant [OF t] by (simp add: passInvariant_def)
  with assms(1) have "allAlive t" by (rule sameStore_allAlive)
  then show ?thesis using d by (rule damage_allAlive)
qed

lemma reachable_allAlive: "reachable rnd s \<Longrightarrow> allAlive s"
proof (induction rule: reachable.induct)
  case reachable_initial
  show ?case by (simp add: allAlive_def initialWorld_def)
next
  case (reachable_addAgent s s')
  from reachable_addAgent.hyps(1) have "idsBelowCounter s"
    using reachable_reachInvariant by (auto simp: reachInvariant_def)
  with reachable_addAgent show ?case using addAgent_allAlive by blast
next
  case (reachable_addEnemy s s')
  from reachable_addEnemy.hyps(1) have "idsBelowCounter s"
    using reachable_reachInvariant by (auto simp: reachInvariant_def)
  with reachable_addEnemy show ?case using addEnemy_allAlive by blast
next
  case (reachable_toggleEnemy s)
  then show ?case by (simp add: allAlive_def toggleEnemyTargeting_def Let_def)
next
  case (reachable_toggleAgent s)
  then show ?case by (simp add: allAlive_def toggleAgentTargeting_def Let_def)
next
  case (reachable_update s s')
  then show ?case using update_allAlive by blast
qed

subsection \<open>Evaluating the pass on concrete states\<close>

lemma sqrt_le_iff_sq: "0 \<le> r \<Longrightarrow> sqrt x \<le> r \<longleftrightarrow> x \<le> r\<^sup>2"
proof -
  assume r: "0 \<le> r"
  then have "sqrt (r\<^sup>2) = r" by simp
  then have "sqrt x \<le> r \<longleftrightarrow> sqrt x \<le> sqrt (r\<^sup>2)" by simp
  then show ?thesis using real_sqrt_le_iff by blast
qed

lemma distanceBetween_le:
  "0 \<le> r \<Longrightarrow>
     distanceBetween a b \<le> r \<longleftrightarrow> (pos_x a - pos_x b)\<^sup>2 + (pos_y a - pos_y b)\<^sup>2 \<le> r\<^sup>2"
  by (simp add: distanceBetween_def sqrt_le_iff_sq)

lemmas assign_eval = WeaponAssignmentSystem_update_def assignEntity_def assignAgentWeapons_def
  assignEnemyWeapons_def assignWeaponToTarget_def WeaponTargetConfig_def validTargetTypes_def
  AGENT_def ENEMY_def TARGET_PART_def obj_get_def obj_set_def obj_delete_def
  alreadyTargeted_def obj_values_def specificMatch_def assignIfInRange_def
  WeaponRangeConfig_def distanceBetween_le

lemma duel_update:
  "WeaponAssignmentSystem_update (duelWorld\<lparr>targeting := t\<rparr>)
     = Inr (duelWorld\<lparr>targeting := duelLinks\<rparr>)"
  by (simp add: assign_eval duelWorld_def duelLinks_def)

lemmas damage_eval = DamageSystem_update_def resolveLink_def applyHit_def killEntity_def
  calculateHitProbability_def distanceBetween_def WeaponStats_def WeaponRangeConfig_def
  obj_keys_def obj_get_def obj_set_def obj_delete_def rndZero_def

lemma kill_assign: "WeaponAssignmentSystem_update killWorld = Inr killWorld"
  by (simp add: assign_eval killWorld_def killLinks_def agent0_def enemy3_def)

lemma kill_step: "resolveLink rndZero 2 killWorld = Inr midKillWorld"
  by (simp add: damage_eval killWorld_def midKillWorld_def killLinks_def agent0_def enemy3_def)

lemma kill_skip: "find (\<lambda>e. entity_id e = 3) (entities midKillWorld) = None"
  by (simp add: midKillWorld_def agent0_def)

lemma kill_pass: "DamageSystem_update rndZero killWorld = Inr afterKillWorld"
  by (simp add: damage_eval killWorld_def midKillWorld_def afterKillWorld_def killLinks_def
      agent0_def enemy3_def)

lemma kill_alive: "allAlive killWorld"
  by (simp add: allAlive_def killWorld_def agent0_def enemy3_def obj_get_def)

subsection \<open>The concrete states are reachable\<close>

lemma agent_spawn: "addAgent rndA initialWorld = Inr agentWorld"
  by (simp add: addAgent_def addEntity_def random_def Let_def EntityStats_def obj_set_def
      obj_get_def obj_delete_def andThen_def addWeaponToEntity_def addWeapon_def pick_def
      WeaponTypes_def AGENT_def initialWorld_def agentWorld_def rndA_def numeral_eq_Suc)

lemma enemy_spawn: "addEnemy rndA agentWorld = Inr duelWorld"
proof -
  have pk: "pick EnemyTypes 0 = ''infantry''"
    by (simp add: pick_def EnemyTypes_def)
  have st: "map_of EntityStats ''infantry'' = Some 50"
    by (simp add: EntityStats_def)
  have parts: "map_of EnemyPartsConfig ''infantry'' = Some [''head'', ''body'', ''arm'', ''leg'']"
    by (simp add: EnemyPartsConfig_def)
  show ?thesis
    unfolding addEnemy_unfold
    by (simp add: enemyShell_def pk st parts addWeaponIf_def hasEmptySlot_def andThen_def
        addWeaponToEntity_def addWeapon_def addTargetPartToEntity_eq Let_def
        obj_set_def obj_get_def obj_delete_def ENEMY_def agentWorld_def duelWorld_def
        rndA_def numeral_eq_Suc)
qed


lemma rifle_agent_spawn: "addAgent rndTank initialWorld = Inr rifleAgentWorld"
  by (simp add: addAgent_def addEntity_def random_def Let_def EntityStats_def obj_set_def
      obj_get_def obj_delete_def andThen_def addWeaponToEntity_def addWeapon_def pick_def
      WeaponTypes_def AGENT_def initialWorld_def agentWorld_def rifleAgentWorld_def
      rndTank_def numeral_eq_Suc)

lemma tank_spawn: "addEnemy rndTank rifleAgentWorld = Inr tankWorld"
proof -
  have pk: "pick EnemyTypes (7 / 10) = ''tank''"
    by (simp add: pick_def EnemyTypes_def)
  have st: "map_of EntityStats ''tank'' = Some 200"
    by (simp add: EntityStats_def)
  have parts: "map_of EnemyPartsConfig ''tank''
      = Some [''heat sink'', ''turret'', ''tread'', ''armor'']"
    by (simp add: EnemyPartsConfig_def)
  show ?thesis
    unfolding addEnemy_unfold
    by (simp add: enemyShell_def pk st parts addWeaponIf_def hasEmptySlot_def andThen_def
        addWeaponToEntity_def addWeapon_def addTargetPartToEntity_eq Let_def
        obj_set_def obj_get_def obj_delete_def ENEMY_def agentWorld_def rifleAgentWorld_def
        tankWorld_def rndTank_def numeral_eq_Suc)
qed

lemma duel_reachable: "reachable rndA duelWorld"
  using reachable_addEnemy [OF reachable_addAgent [OF reachable_initial agent_spawn] enemy_spawn] .

lemma tank_reachable: "reachable rndTank tankWorld"
  using reachable_addEnemy
    [OF reachable_addAgent [OF reachable_initial rifle_agent_spawn] tank_spawn] .

lemma duel_full_slots:
  "obj_get (position duelWorld) 3 = Some \<lparr>pos_x = 0, pos_y = 0\<rparr>
   \<and> obj_get (weaponSlots duelWorld) 3 = Some \<lparr>weaponIds = [Some 4, Some 5]\<rparr>"
  by (simp add: duelWorld_def obj_get_def)

lemmas spawn_eval = enemyShell_def addWeaponIf_def hasEmptySlot_def andThen_def
  addWeaponToEntity_def addWeapon_def addTargetPartToEntity_eq Let_def
  obj_set_def obj_get_def obj_delete_def ENEMY_def numeral_eq_Suc

lemma infantry_rows:
  "pick EnemyTypes 0 = ''infantry''" "map_of EntityStats ''infantry'' = Some 50"
  "map_of EnemyPartsConfig ''infantry'' = Some [''head'', ''body'', ''arm'', ''leg'']"
  by (simp_all add: pick_def EnemyTypes_def EntityStats_def EnemyPartsConfig_def)

lemma agent_spawn_b: "addAgent rndB initialWorld = Inr agentWorld"
  by (simp add: addAgent_def addEntity_def random_def Let_def EntityStats_def obj_set_def
      obj_get_def obj_delete_def andThen_def addWeaponToEntity_def addWeapon_def pick_def
      WeaponTypes_def AGENT_def initialWorld_def agentWorld_def rndB_def numeral_eq_Suc)

lemma far_enemy_spawn: "addEnemy rndB agentWorld = Inr farEnemyWorld"
  unfolding addEnemy_unfold
  by (simp add: spawn_eval infantry_rows agentWorld_def farEnemyWorld_def agent0_def
      enemy3_def rndB_def)

lemma near_enemy_spawn: "addEnemy rndB farEnemyWorld = Inr twoEnemiesWorld"
  unfolding addEnemy_unfold
  by (simp add: spawn_eval infantry_rows farEnemyWorld_def twoEnemiesWorld_def agent0_def
      enemy3_def rndB_def)

lemma two_enemies_reachable: "reachable rndB twoEnemiesWorld"
  using reachable_addEnemy [OF reachable_addEnemy
      [OF reachable_addAgent [OF reachable_initial agent_spawn_b] far_enemy_spawn]
      near_enemy_spawn] .

subsection \<open>The targeting category is rebuilt by every pass\<close>

text \<open>
  C3. Every run of the assignment pass first empties the targeting category and rebuilds
  it from the rest of the store alone: the outcome does not depend on the links that were
  there before, nothing but the targeting category changes, and every entry found after
  the pass was written by it (an enabled link from a slotted weapon of an entity whose
  class flag is on, stored under that weapon's id, to an entity of the store). No link of
  an earlier tick survives.
\<close>

theorem targeting_rebuilt_each_pass:
  "WeaponAssignmentSystem_update (s\<lparr>targeting := stale\<rparr>) = WeaponAssignmentSystem_update s
   \<and> (WeaponAssignmentSystem_update s = Inr s' \<longrightarrow>
        s'\<lparr>targeting := []\<rparr> = s\<lparr>targeting := []\<rparr>
        \<and> list_all (\<lambda>p. writtenByPass s (fst p) (snd p)) (targeting s'))"
  using update_passInvariant [of s s']
  by (simp add: update_ignores_targeting passInvariant_def sameStore_def)

theorem targeting_rebuilt_each_pass_witness:
  "WeaponAssignmentSystem_update (duelWorld\<lparr>targeting := staleLinks\<rparr>)
     = Inr (duelWorld\<lparr>targeting := duelLinks\<rparr>)
   \<and> list_all (\<lambda>p. writtenByPass (duelWorld\<lparr>targeting := staleLinks\<rparr>) (fst p) (snd p))
        duelLinks"
proof -
  have run: "WeaponAssignmentSystem_update (duelWorld\<lparr>targeting := staleLinks\<rparr>)
      = Inr (duelWorld\<lparr>targeting := duelLinks\<rparr>)"
    by (rule duel_update)
  show ?thesis
    using targeting_rebuilt_each_pass [where s = "duelWorld\<lparr>targeting := staleLinks\<rparr>"
        and s' = "duelWorld\<lparr>targeting := duelLinks\<rparr>"] run
    by simp
qed

subsection \<open>One target per weapon\<close>

text \<open>
  C6. At every point of an assignment pass and after it, no weapon id is the source of
  more than one enabled link: each call of assignWeaponToTarget keeps the links stored
  under their own source weapon, and so does the whole pass, which starts from the empty
  object. A weapon all of whose candidates (the entities of its owner's opposing classes
  and the target parts) are already targeted by itself gets no assignment: the call
  returns the state unchanged.
\<close>

theorem one_target_per_weapon:
  "(linksKeyed (targeting s) \<and> assignWeaponToTarget w owner s = Inr s' \<longrightarrow>
      linksKeyed (targeting s') \<and> oneLinkPerWeapon (targeting s'))
   \<and> (WeaponAssignmentSystem_update s = Inr s'' \<longrightarrow>
      linksKeyed (targeting s'') \<and> oneLinkPerWeapon (targeting s''))
   \<and> (obj_get (weapon s) w = Some wpn
       \<and> (\<forall>e \<in> set (entities s).
            entity_type e \<in> set (validTargetTypes (entity_type owner))
              \<or> entity_type e = TARGET_PART
            \<longrightarrow> alreadyTargeted s w (entity_id e))
      \<longrightarrow> assignWeaponToTarget w owner s = Inr s)"
  using assignWeaponToTarget_keyed [of s w owner s'] update_passInvariant [of s s'']
    assignWeaponToTarget_all_targeted [of s w wpn owner]
  by (auto simp: linksKeyed_oneLink passInvariant_def)

theorem one_target_per_weapon_witness:
  "assignWeaponToTarget 2 agent0 (duelWorld\<lparr>targeting := duelLinks\<rparr>)
     = Inr (duelWorld\<lparr>targeting := duelLinks\<rparr>)
   \<and> WeaponAssignmentSystem_update (duelWorld\<lparr>targeting := duelLinks\<rparr>)
     = Inr (duelWorld\<lparr>targeting := duelLinks\<rparr>)
   \<and> linksKeyed duelLinks \<and> oneLinkPerWeapon duelLinks"
proof -
  let ?s = "duelWorld\<lparr>targeting := duelLinks\<rparr>"
  have keyed: "linksKeyed (targeting ?s)"
    by (simp add: linksKeyed_def obj_wf_def duelLinks_def)
  have wpn: "obj_get (weapon ?s) 2 = Some \<lparr>weaponType = ''melee''\<rparr>"
    by (simp add: duelWorld_def obj_get_def)
  have all: "\<forall>e \<in> set (entities ?s).
      entity_type e \<in> set (validTargetTypes (entity_type agent0)) \<or> entity_type e = TARGET_PART
        \<longrightarrow> alreadyTargeted ?s 2 (entity_id e)"
    by (simp add: duelWorld_def duelLinks_def agent0_def validTargetTypes_def AGENT_def
        ENEMY_def TARGET_PART_def alreadyTargeted_def obj_values_def)
  have run: "WeaponAssignmentSystem_update ?s = Inr ?s"
    by (rule duel_update)
  show ?thesis
    using one_target_per_weapon [where s = ?s and w = 2 and owner = agent0 and s' = ?s
        and s'' = ?s and wpn = "\<lparr>weaponType = ''melee''\<rparr>"] keyed wpn all run
    by simp
qed

subsection \<open>Idempotence of the pass\<close>

text \<open>
  C9. Running the assignment pass again on the state it has just produced, with nothing
  changed in between, yields the same state, hence an identical targeting mapping.
\<close>

theorem assignment_idempotent:
  assumes "WeaponAssignmentSystem_update s = Inr s'"
  shows "WeaponAssignmentSystem_update s' = Inr s'"
proof -
  have "sameStore s s'"
    using update_passInvariant [OF assms] by (simp add: passInvariant_def)
  then have "s' = s\<lparr>targeting := targeting s'\<rparr>"
    by (rule sameStore_eq)
  then have "WeaponAssignmentSystem_update s' = WeaponAssignmentSystem_update s"
    using update_ignores_targeting [where s = s and t = "targeting s'"] by simp
  with assms show ?thesis by simp
qed

theorem assignment_idempotent_witness:
  "WeaponAssignmentSystem_update duelWorld = Inr (duelWorld\<lparr>targeting := duelLinks\<rparr>)
   \<and> WeaponAssignmentSystem_update (duelWorld\<lparr>targeting := duelLinks\<rparr>)
     = Inr (duelWorld\<lparr>targeting := duelLinks\<rparr>)"
proof -
  have first: "WeaponAssignmentSystem_update duelWorld = Inr (duelWorld\<lparr>targeting := duelLinks\<rparr>)"
    using duel_update [of "targeting duelWorld"] by simp
  show ?thesis
    using assignment_idempotent [OF first] first by simp
qed

subsection \<open>Primary target selection\<close>

text \<open>
  C1 (as amended). For a weapon with a preference record, assignWeaponToTarget filters
  the primary list to the types among the owner's valid opposing classes (enemy and
  target-part for an agent, agent for an enemy) and, for each surviving type in list
  order, takes the first entity of that type in creation order that this weapon does not
  already target; the first such candidate within the weapon's maximum range of the owner
  receives the link. Consequently, after a pass that completes, every slotted weapon of
  an entity whose class flag is on, for which that choice exists in the store, is the
  source of exactly one targeting entry, stored under its id and enabled.
\<close>

theorem primary_target_selection:
  "(obj_get (weapon s) w = Some wpn
      \<and> map_of WeaponTargetConfig (weaponType wpn) = Some prefs
      \<and> assignWeaponToTarget w owner s = Inr s'
      \<and> primaryChoice s w owner wpn prefs = Some e
     \<longrightarrow> s' = s\<lparr>targeting := obj_set (targeting s) w (newLink w wpn e)\<rparr>)
   \<and> (WeaponAssignmentSystem_update s = Inr s''
      \<and> owner \<in> set (entities s) \<and> ownerEnabled s owner
      \<and> obj_get (weaponSlots s) (entity_id owner) = Some slots
      \<and> Some w \<in> set (weaponIds slots)
      \<and> obj_get (weapon s) w = Some wpn
      \<and> map_of WeaponTargetConfig (weaponType wpn) = Some prefs
      \<and> primaryChoice (s\<lparr>targeting := []\<rparr>) w owner wpn prefs = Some e
     \<longrightarrow> (\<exists>link. filter (\<lambda>l. source l = w) (obj_values (targeting s'')) = [link]
            \<and> obj_get (targeting s'') w = Some link \<and> enabled link))"
proof (intro conjI impI)
  assume "obj_get (weapon s) w = Some wpn
      \<and> map_of WeaponTargetConfig (weaponType wpn) = Some prefs
      \<and> assignWeaponToTarget w owner s = Inr s'
      \<and> primaryChoice s w owner wpn prefs = Some e"
  then show "s' = s\<lparr>targeting := obj_set (targeting s) w (newLink w wpn e)\<rparr>"
    using assignWeaponToTarget_primaryChoice by blast
next
  assume a: "WeaponAssignmentSystem_update s = Inr s''
      \<and> owner \<in> set (entities s) \<and> ownerEnabled s owner
      \<and> obj_get (weaponSlots s) (entity_id owner) = Some slots
      \<and> Some w \<in> set (weaponIds slots)
      \<and> obj_get (weapon s) w = Some wpn
      \<and> map_of WeaponTargetConfig (weaponType wpn) = Some prefs
      \<and> primaryChoice (s\<lparr>targeting := []\<rparr>) w owner wpn prefs = Some e"
  then have "obj_get (targeting s'') w \<noteq> None"
    using update_gains_entry [of s s'' owner slots w wpn prefs e] by blast
  then obtain link where link: "obj_get (targeting s'') w = Some link" by auto
  from a have inv: "passInvariant s s''"
    using update_passInvariant by blast
  then have keyed: "linksKeyed (targeting s'')" by (simp add: passInvariant_def)
  have one: "filter (\<lambda>l. source l = w) (obj_values (targeting s'')) = [link]"
    using keyed_single_link [OF keyed link] .
  have "(w, link) \<in> set (targeting s'')"
    using link by (rule obj_get_Some_mem)
  with inv have "enabled link"
    by (auto simp: passInvariant_def list_all_iff writtenByPass_def)
  with one link
  show "\<exists>link. filter (\<lambda>l. source l = w) (obj_values (targeting s'')) = [link]
            \<and> obj_get (targeting s'') w = Some link \<and> enabled link"
    by blast
qed

text \<open>
  The claim as stated fails on the reachable state \<open>twoEnemiesWorld\<close>: the agent's melee
  weapon (id 2) keeps both opposing classes in its filtered list, and the second enemy
  (id 10) stands on the agent, in range; but the candidate of type enemy is the first
  enemy (id 3), which is 400 away, and no entity has the type target-part, so the pass
  writes no entry for weapon 2.
\<close>

lemmas choice_eval = primaryChoice_def primaryCandidate_def inRangeOf_def
  List.map_filter_simps validTargetTypes_def AGENT_def ENEMY_def TARGET_PART_def
  alreadyTargeted_def obj_values_def obj_get_def WeaponRangeConfig_def distanceBetween_le

theorem primary_target_selection_counterexample:
  "reachable rndB twoEnemiesWorld
   \<and> WeaponAssignmentSystem_update twoEnemiesWorld
     = Inr (twoEnemiesWorld
         \<lparr>targeting := [(12, \<lparr>source = 12, target = 0, color = ''gray'', enabled = True\<rparr>)]\<rparr>)
   \<and> obj_get (weaponSlots twoEnemiesWorld) (entity_id agent0)
       = Some \<lparr>weaponIds = [Some 1, Some 2, None, None, None, None, None]\<rparr>
   \<and> obj_get (weapon twoEnemiesWorld) 2 = Some \<lparr>weaponType = ''melee''\<rparr>
   \<and> map_of WeaponTargetConfig ''melee'' = Some meleePreferences
   \<and> filter (\<lambda>t. t \<in> set (validTargetTypes (entity_type agent0))) (primary meleePreferences)
       = [ENEMY, TARGET_PART]
   \<and> enemy10 \<in> set (entities twoEnemiesWorld)
   \<and> inRangeOf twoEnemiesWorld agent0 \<lparr>weaponType = ''melee''\<rparr> enemy10
   \<and> filter (\<lambda>l. source l = 2)
        (obj_values [(12, \<lparr>source = 12, target = 0, color = ''gray'', enabled = True\<rparr>)]) = []"
  using two_enemies_reachable
  by (simp add: assign_eval choice_eval twoEnemiesWorld_def agent0_def enemy10_def
      meleePreferences_def)

lemma duel_choice:
  "primaryChoice (duelWorld\<lparr>targeting := []\<rparr>) 2 agent0 \<lparr>weaponType = ''melee''\<rparr> meleePreferences
     = Some enemy3"
  by (simp add: choice_eval duelWorld_def agent0_def enemy3_def meleePreferences_def)

lemma duel_assign:
  "assignWeaponToTarget 2 agent0 duelWorld
     = Inr (duelWorld\<lparr>targeting := [(2, newLink 2 \<lparr>weaponType = ''melee''\<rparr> enemy3)]\<rparr>)"
  by (simp add: assign_eval duelWorld_def agent0_def enemy3_def newLink_def)

theorem primary_target_selection_witness:
  "assignWeaponToTarget 2 agent0 duelWorld
     = Inr (duelWorld\<lparr>targeting := obj_set (targeting duelWorld) 2
              (newLink 2 \<lparr>weaponType = ''melee''\<rparr> enemy3)\<rparr>)
   \<and> WeaponAssignmentSystem_update duelWorld = Inr (duelWorld\<lparr>targeting := duelLinks\<rparr>)
   \<and> primaryChoice (duelWorld\<lparr>targeting := []\<rparr>) 2 agent0 \<lparr>weaponType = ''melee''\<rparr>
        meleePreferences = Some enemy3
   \<and> (\<exists>link. filter (\<lambda>l. source l = 2) (obj_values duelLinks) = [link]
         \<and> obj_get duelLinks 2 = Some link \<and> enabled link)"
proof -
  let ?m = "\<lparr>weaponType = ''melee''\<rparr>"
  let ?slots = "\<lparr>weaponIds = [Some 1, Some 2, None, None, None, None, None]\<rparr>"
  have wpn: "obj_get (weapon duelWorld) 2 = Some ?m"
    by (simp add: duelWorld_def obj_get_def)
  have prefs: "map_of WeaponTargetConfig (weaponType ?m) = Some meleePreferences"
    by (simp add: WeaponTargetConfig_def meleePreferences_def)
  have t0: "duelWorld\<lparr>targeting := []\<rparr> = duelWorld"
    by (simp add: duelWorld_def)
  have choice: "primaryChoice (duelWorld\<lparr>targeting := []\<rparr>) 2 agent0 ?m meleePreferences
      = Some enemy3"
    by (rule duel_choice)
  have run: "WeaponAssignmentSystem_update duelWorld = Inr (duelWorld\<lparr>targeting := duelLinks\<rparr>)"
    using duel_update [of "targeting duelWorld"] by simp
  have owner: "agent0 \<in> set (entities duelWorld)" "ownerEnabled duelWorld agent0"
    by (simp_all add: duelWorld_def agent0_def ownerEnabled_def AGENT_def)
  have slots: "obj_get (weaponSlots duelWorld) (entity_id agent0) = Some ?slots"
    "Some 2 \<in> set (weaponIds ?slots)"
    by (simp_all add: duelWorld_def agent0_def obj_get_def)
  have one: "assignWeaponToTarget 2 agent0 duelWorld = Inr (duelWorld\<lparr>targeting := [(2, newLink 2 ?m enemy3)]\<rparr>)"
    by (rule duel_assign)
  show ?thesis
    using primary_target_selection [where s = duelWorld and w = 2 and wpn = ?m
        and prefs = meleePreferences and owner = agent0 and e = enemy3 and slots = ?slots
        and s' = "duelWorld\<lparr>targeting := [(2, newLink 2 ?m enemy3)]\<rparr>"
        and s'' = "duelWorld\<lparr>targeting := duelLinks\<rparr>"]
      wpn prefs choice run owner slots one t0
    by simp
qed

subsection \<open>Specific targets\<close>

text \<open>
  C2. \<open>tankWorld\<close> is a reachable state. In it the agent's rifle (id 1) gets no primary
  target (its primary types are enemy types, none of them an entity class), its weapon
  type lists the heat sink of a tank as a specific target, the enemy (id 3) is a tank
  whose heat sink (id 6) is at distance 0, within the rifle's range of 60, and no link
  exists yet. The pass nevertheless writes no entry: the scan runs over the entity list,
  which holds no target part.
\<close>

theorem specific_target_never_assigned:
  "reachable rndTank tankWorld
   \<and> WeaponAssignmentSystem_update tankWorld = Inr tankWorld
   \<and> targeting tankWorld = []
   \<and> obj_get (weaponSlots tankWorld) 0
       = Some \<lparr>weaponIds = [Some 1, Some 2, None, None, None, None, None]\<rparr>
   \<and> obj_get (weapon tankWorld) 1 = Some \<lparr>weaponType = ''rifle''\<rparr>
   \<and> map_option specificTargets (map_of WeaponTargetConfig ''rifle'')
       = Some (Some [(''tank'', [''heat sink''])])
   \<and> obj_get (targetPartType tankWorld) 6
       = Some \<lparr>partType = ''heat sink'', parentEntityId = Num 3\<rparr>
   \<and> obj_get (enemyType tankWorld) 3 = Some \<lparr>enemy_type = ''tank''\<rparr>
   \<and> obj_get (position tankWorld) 0 = Some \<lparr>pos_x = 0, pos_y = 0\<rparr>
   \<and> obj_get (position tankWorld) 6 = Some \<lparr>pos_x = 0, pos_y = 0\<rparr>
   \<and> distanceBetween \<lparr>pos_x = 0, pos_y = 0\<rparr> \<lparr>pos_x = 0, pos_y = 0\<rparr> \<le> 60"
  using tank_reachable by (simp add: assign_eval tankWorld_def)

subsection \<open>Death and removal\<close>

text \<open>
  C4. Resolving one targeting link keeps every entity of the store alive: when a hit
  brings the target's health to zero or below, killEntity removes the target before the
  next link is looked at. Hence, in a store whose entities all have a health above zero
  (and pairwise distinct ids), as every reachable state is, no entity with a health of zero
  or below remains after each link and after the whole damage pass; and every entity that a
  link or the pass has removed has no entry left under its id in any component category.
\<close>

theorem dead_entities_removed:
  "(allAlive s \<and> resolveLink rnd k s = Inr s' \<longrightarrow> allAlive s' \<and> removedArePurged s s')
   \<and> (allAlive s \<and> DamageSystem_update rnd s = Inr s'' \<longrightarrow>
        allAlive s'' \<and> removedArePurged s s'')
   \<and> (reachable rnd s \<longrightarrow> allAlive s)"
  using resolveLink_allAlive [of s rnd k s'] resolveLink_removed_purged [of rnd k s s']
    damage_allAlive [of s rnd s''] damage_removed_purged [of rnd s s'']
    reachable_allAlive [of rnd s]
  by blast

text \<open>
  In \<open>killWorld\<close> the first link brings the enemy's health from 20 to 0: the enemy is
  gone from the entity list at once, the second link, to the same target, is passed over,
  and the third link, from the dead enemy's weapon, still hits the agent.
\<close>

theorem dead_entities_removed_witness:
  "resolveLink rndZero 2 killWorld = Inr midKillWorld
   \<and> DamageSystem_update rndZero killWorld = Inr afterKillWorld
   \<and> allAlive killWorld
   \<and> allAlive midKillWorld \<and> removedArePurged killWorld midKillWorld
   \<and> allAlive afterKillWorld \<and> removedArePurged killWorld afterKillWorld
   \<and> enemy3 \<in> set (entities killWorld) \<and> enemy3 \<notin> set (entities midKillWorld)
   \<and> purged midKillWorld (entity_id enemy3)
   \<and> reachable rndA duelWorld \<and> allAlive duelWorld"
proof -
  have mem: "enemy3 \<in> set (entities killWorld) \<and> enemy3 \<notin> set (entities midKillWorld)"
    by (simp add: killWorld_def midKillWorld_def agent0_def enemy3_def)
  have step: "allAlive midKillWorld \<and> removedArePurged killWorld midKillWorld"
    using dead_entities_removed [where s = killWorld and rnd = rndZero and k = 2
        and s' = midKillWorld and s'' = afterKillWorld] kill_step kill_alive
    by simp
  with mem have gone: "purged midKillWorld (entity_id enemy3)"
    by (auto simp: removedArePurged_def list_all_iff)
  have pass: "allAlive afterKillWorld \<and> removedArePurged killWorld afterKillWorld"
    using dead_entities_removed [where s = killWorld and rnd = rndZero and k = 2
        and s' = midKillWorld and s'' = afterKillWorld] kill_pass kill_alive
    by simp
  have start: "reachable rndA duelWorld"
    by (rule duel_reachable)
  then have init: "allAlive duelWorld"
    using dead_entities_removed [where s = duelWorld and rnd = rndA and k = 0
        and s' = duelWorld and s'' = duelWorld]
    by simp
  show ?thesis
    using kill_step kill_pass kill_alive mem step gone pass start init
    by simp
qed

subsection \<open>Links whose ends are gone\<close>

text \<open>
  C7. A targeting link whose weapon has no weapon component, or whose target id is no
  longer the id of an entity of the store, is skipped: resolving it returns the state as
  it was (no health changed, no entity removed, no random number drawn), and the pass goes
  on with the remaining links.
\<close>

theorem missing_link_ends_skipped:
  "obj_get (targeting s) k = Some link
     \<and> (obj_get (weapon s) k = None
        \<or> find (\<lambda>e. entity_id e = target link) (entities s) = None)
   \<longrightarrow> resolveLink rnd k s = Inr s
       \<and> resolveLinks rnd (k # ks) s = resolveLinks rnd ks s"
proof
  assume a: "obj_get (targeting s) k = Some link
     \<and> (obj_get (weapon s) k = None
        \<or> find (\<lambda>e. entity_id e = target link) (entities s) = None)"
  then have "resolveLink rnd k s = Inr s"
    by (auto simp: resolveLink_def split: option.splits)
  then show "resolveLink rnd k s = Inr s
       \<and> resolveLinks rnd (k # ks) s = resolveLinks rnd ks s"
    by simp
qed

theorem missing_link_ends_skipped_witness:
  "obj_get (targeting midKillWorld) 4
     = Some \<lparr>source = 4, target = 3, color = ''gray'', enabled = True\<rparr>
   \<and> find (\<lambda>e. entity_id e = 3) (entities midKillWorld) = None
   \<and> resolveLink rndZero 4 midKillWorld = Inr midKillWorld
   \<and> resolveLinks rndZero [4, 5] midKillWorld = resolveLinks rndZero [5] midKillWorld"
proof -
  let ?l = "\<lparr>source = 4, target = 3, color = ''gray'', enabled = True\<rparr>"
  have link: "obj_get (targeting midKillWorld) 4 = Some ?l"
    by (simp add: midKillWorld_def killLinks_def obj_get_def)
  show ?thesis
    using missing_link_ends_skipped [where s = midKillWorld and k = 4 and link = ?l
        and rnd = rndZero and ks = "[5]"] link kill_skip
    by simp
qed

subsection \<open>Weapon slots\<close>

text \<open>
  C8 (as amended). Adding a weapon to a weapon-slots component with no empty slot leaves
  the component as it is and gives one line to console.warn; addWeaponToEntity on such an
  owner does not raise, and leaves the entity list and every weapon-slots component
  unchanged. addWeapon never changes the number of slots; consequently, in every reachable
  state, each entity with a weapon-slots component has the slot count of its class (7 for
  an agent, 2 for an enemy) and at most that many weapons.
\<close>

theorem full_slots_warn_and_keep_capacity:
  "(list_all (\<lambda>w. w \<noteq> None) (weaponIds slots) \<longrightarrow>
      addWeapon slots weaponId = (slots, [''Entity has no available weapon slots.'']))
   \<and> (obj_get (position s) entityId = Some p
       \<and> obj_get (weaponSlots s) entityId = Some slots
       \<and> list_all (\<lambda>w. w \<noteq> None) (weaponIds slots) \<longrightarrow>
      (\<exists>s'. addWeaponToEntity entityId wt s = Inr s'
         \<and> entities s' = entities s
         \<and> (\<forall>k. obj_get (weaponSlots s') k = obj_get (weaponSlots s) k)
         \<and> console s' = console s @ [''Entity has no available weapon slots.'']))
   \<and> length (weaponIds (fst (addWeapon slots weaponId))) = length (weaponIds slots)
   \<and> (reachable rnd s \<longrightarrow> slotsWithinCapacity s)"
proof (intro conjI impI)
  assume "list_all (\<lambda>w. w \<noteq> None) (weaponIds slots)"
  then show "addWeapon slots weaponId = (slots, [''Entity has no available weapon slots.''])"
    by (rule addWeapon_full)
next
  assume a: "obj_get (position s) entityId = Some p
       \<and> obj_get (weaponSlots s) entityId = Some slots
       \<and> list_all (\<lambda>w. w \<noteq> None) (weaponIds slots)"
  then have full: "addWeapon slots (nodeId s) = (slots, [''Entity has no available weapon slots.''])"
    by (simp add: addWeapon_full)
  from a have run: "addWeaponToEntity entityId wt s = Inr (weaponAdded entityId wt p slots s)"
    by (simp add: addWeaponToEntity_run)
  have "entities (weaponAdded entityId wt p slots s) = entities s"
    by (simp add: weaponAdded_def)
  moreover have "\<forall>k. obj_get (weaponSlots (weaponAdded entityId wt p slots s)) k
      = obj_get (weaponSlots s) k"
    using a full by (simp add: weaponAdded_def)
  moreover have "console (weaponAdded entityId wt p slots s)
      = console s @ [''Entity has no available weapon slots.'']"
    using full by (simp add: weaponAdded_def)
  ultimately show "\<exists>s'. addWeaponToEntity entityId wt s = Inr s'
         \<and> entities s' = entities s
         \<and> (\<forall>k. obj_get (weaponSlots s') k = obj_get (weaponSlots s) k)
         \<and> console s' = console s @ [''Entity has no available weapon slots.'']"
    using run by blast
next
  show "length (weaponIds (fst (addWeapon slots weaponId))) = length (weaponIds slots)"
    using addWeapon_length [of slots weaponId] by (cases "addWeapon slots weaponId") simp
next
  assume "reachable rnd s"
  then show "slotsWithinCapacity s"
    using reachable_reachInvariant by (auto simp: reachInvariant_def)
qed

text \<open>
  The claim as stated, that the store is left unchanged, fails: in \<open>duelWorld\<close> both
  slots of the enemy (id 3) are taken, and addWeaponToEntity still takes id 10 from the
  counter and stores a weapon component and a position under it.
\<close>

theorem full_slots_warn_and_keep_capacity_counterexample:
  "obj_get (weaponSlots duelWorld) 3 = Some \<lparr>weaponIds = [Some 4, Some 5]\<rparr>
   \<and> addWeaponToEntity 3 ''rocket'' duelWorld
     = Inr (duelWorld\<lparr>nodeId := 11,
              weapon := weapon duelWorld @ [(10, \<lparr>weaponType = ''rocket''\<rparr>)],
              position := position duelWorld @ [(10, \<lparr>pos_x = 10, pos_y = 10\<rparr>)],
              console := [''Entity has no available weapon slots.'']\<rparr>)
   \<and> addWeaponToEntity 3 ''rocket'' duelWorld \<noteq> Inr duelWorld"
  by (simp add: addWeaponToEntity_def addWeapon_def Let_def obj_get_def obj_set_def
      obj_delete_def duelWorld_def)

theorem full_slots_warn_and_keep_capacity_witness:
  "addWeapon \<lparr>weaponIds = [Some 4, Some 5]\<rparr> 10
     = (\<lparr>weaponIds = [Some 4, Some 5]\<rparr>, [''Entity has no available weapon slots.''])
   \<and> (\<exists>s'. addWeaponToEntity 3 ''rocket'' duelWorld = Inr s'
        \<and> entities s' = entities duelWorld
        \<and> (\<forall>k. obj_get (weaponSlots s') k = obj_get (weaponSlots duelWorld) k)
        \<and> console s' = console duelWorld @ [''Entity has no available weapon slots.''])
   \<and> reachable rndA duelWorld \<and> slotsWithinCapacity duelWorld"
proof -
  have full: "list_all (\<lambda>w. w \<noteq> None) (weaponIds \<lparr>weaponIds = [Some 4, Some (5::nat)]\<rparr>)"
    by simp
  show ?thesis
    using full_slots_warn_and_keep_capacity [where slots = "\<lparr>weaponIds = [Some 4, Some 5]\<rparr>"
        and weaponId = 10 and s = duelWorld and entityId = 3
        and p = "\<lparr>pos_x = 0, pos_y = 0\<rparr>" and wt = "''rocket''" and rnd = rndA]
      full duel_full_slots duel_reachable
    by simp
qed

subsection \<open>The entity registry\<close>

text \<open>
  C10. addWeaponToEntity and addTargetPartToEntity take the next id from the shared
  counter and store their components under it, and leave the entity list as it is. Hence
  in every reachable state the entity list holds agents and enemies only, all with ids
  below the counter (the id a helper takes next is the id of no entity), and every scan
  of it (the primary candidate search, the specific target search, the target lookup of
  damage resolution) can only return an agent or an enemy; the specific target search,
  which asks for a target part, finds nothing.
\<close>

theorem entity_registry_holds_agents_and_enemies:
  "(addWeaponToEntity entityId wt s = Inr s' \<longrightarrow>
      entities s' = entities s \<and> nodeId s' = Suc (nodeId s)
      \<and> obj_get (weapon s') (nodeId s) = Some \<lparr>weaponType = wt\<rparr>
      \<and> obj_get (position s') (nodeId s) \<noteq> None)
   \<and> entities (addTargetPartToEntity rnd enemyId pt s) = entities s
   \<and> nodeId (addTargetPartToEntity rnd enemyId pt s) = Suc (nodeId s)
   \<and> obj_get (targetPartType (addTargetPartToEntity rnd enemyId pt s)) (nodeId s)
       = Some \<lparr>partType = pt, parentEntityId = Num enemyId\<rparr>
   \<and> obj_get (health (addTargetPartToEntity rnd enemyId pt s)) (nodeId s)
       = Some \<lparr>health_value = 10\<rparr>
   \<and> obj_get (position (addTargetPartToEntity rnd enemyId pt s)) (nodeId s) \<noteq> None
   \<and> (reachable rnd s \<longrightarrow>
        onlyAgentsAndEnemies s \<and> idsBelowCounter s
        \<and> (\<forall>P e. find P (entities s) = Some e \<longrightarrow> entity_type e = AGENT \<or> entity_type e = ENEMY)
        \<and> (\<forall>w t e. primaryCandidate s w t = Some e \<longrightarrow>
              entity_type e = AGENT \<or> entity_type e = ENEMY)
        \<and> (\<forall>w tt p. find (specificMatch s w tt p) (entities s) = None))"
proof (intro conjI impI)
  assume a: "addWeaponToEntity entityId wt s = Inr s'"
  from addWeaponToEntity_Inr [OF a] obtain p slots where
    s': "s' = weaponAdded entityId wt p slots s" by blast
  show "entities s' = entities s" by (simp add: s' weaponAdded_def)
  show "nodeId s' = Suc (nodeId s)" by (simp add: s' weaponAdded_def)
  show "obj_get (weapon s') (nodeId s) = Some \<lparr>weaponType = wt\<rparr>"
    by (simp add: s' weaponAdded_def)
  show "obj_get (position s') (nodeId s) \<noteq> None" by (simp add: s' weaponAdded_def)
next
  show "entities (addTargetPartToEntity rnd enemyId pt s) = entities s"
    by (simp add: addTargetPartToEntity_eq)
  show "nodeId (addTargetPartToEntity rnd enemyId pt s) = Suc (nodeId s)"
    by (simp add: addTargetPartToEntity_eq)
  show "obj_get (targetPartType (addTargetPartToEntity rnd enemyId pt s)) (nodeId s)
       = Some \<lparr>partType = pt, parentEntityId = Num enemyId\<rparr>"
    by (simp add: addTargetPartToEntity_eq)
  show "obj_get (health (addTargetPartToEntity rnd enemyId pt s)) (nodeId s)
       = Some \<lparr>health_value = 10\<rparr>"
    by (simp add: addTargetPartToEntity_eq)
  show "obj_get (position (addTargetPartToEntity rnd enemyId pt s)) (nodeId s) \<noteq> None"
    by (simp add: addTargetPartToEntity_eq)
next
  assume r: "reachable rnd s"
  then have inv: "onlyAgentsAndEnemies s" and below: "idsBelowCounter s"
    using reachable_reachInvariant by (auto simp: reachInvariant_def)
  show "onlyAgentsAndEnemies s" by (rule inv)
  show "idsBelowCounter s" by (rule below)
  show "\<forall>P e. find P (entities s) = Some e \<longrightarrow> entity_type e = AGENT \<or> entity_type e = ENEMY"
    using find_only_agents_and_enemies [OF inv] by blast
  show "\<forall>w t e. primaryCandidate s w t = Some e \<longrightarrow>
              entity_type e = AGENT \<or> entity_type e = ENEMY"
    using find_only_agents_and_enemies [OF inv] by (auto simp: primaryCandidate_def)
  show "\<forall>w tt p. find (specificMatch s w tt p) (entities s) = None"
    using no_specific_match [OF inv] by blast
qed

theorem entity_registry_holds_agents_and_enemies_witness:
  "reachable rndA duelWorld \<and> onlyAgentsAndEnemies duelWorld \<and> idsBelowCounter duelWorld
   \<and> find (specificMatch duelWorld 1 ''tank'' ''heat sink'') (entities duelWorld) = None
   \<and> addWeaponToEntity 3 ''rocket'' duelWorld
       = Inr (weaponAdded 3 ''rocket'' \<lparr>pos_x = 0, pos_y = 0\<rparr>
                \<lparr>weaponIds = [Some 4, Some 5]\<rparr> duelWorld)
   \<and> entities (weaponAdded 3 ''rocket'' \<lparr>pos_x = 0, pos_y = 0\<rparr>
                \<lparr>weaponIds = [Some 4, Some 5]\<rparr> duelWorld) = entities duelWorld
   \<and> nodeId (weaponAdded 3 ''rocket'' \<lparr>pos_x = 0, pos_y = 0\<rparr>
                \<lparr>weaponIds = [Some 4, Some 5]\<rparr> duelWorld) = Suc (nodeId duelWorld)"
proof -
  let ?s' = "weaponAdded 3 ''rocket'' \<lparr>pos_x = 0, pos_y = 0\<rparr>
                \<lparr>weaponIds = [Some 4, Some 5]\<rparr> duelWorld"
  have run: "addWeaponToEntity 3 ''rocket'' duelWorld = Inr ?s'"
    using duel_full_slots by (simp add: addWeaponToEntity_run)
  show ?thesis
    using entity_registry_holds_agents_and_enemies [where s = duelWorld and rnd = rndA
        and entityId = 3 and wt = "''rocket''" and s' = ?s'] run duel_reachable
    by simp
qed

subsection \<open>Hit probability\<close>

text \<open>
  C5. Given an accuracy in [0,1] and a positive maximum range, the hit probability is
  computed without error and lies in [0,1]; it is exactly 1 whenever the distance is at
  most the melee threshold 1, whatever the weapon's own range and accuracy, and otherwise
  it is (1 - normalizedDistance) * accuracy, where normalizedDistance is distance / maxRange
  clamped to [0,1]. Every row of the weapon tables has such an accuracy and such a range,
  so this holds of every link that damage resolution resolves.
\<close>

theorem hit_probability_bounds:
  "(0 \<le> acc \<and> acc \<le> 1 \<and> 0 < maxRange \<longrightarrow>
      (\<exists>p. calculateHitProbability distance maxRange acc = Inr p \<and> 0 \<le> p \<and> p \<le> 1
           \<and> (distance \<le> 1 \<longrightarrow> p = 1)
           \<and> (\<not> distance \<le> 1 \<longrightarrow>
                p = (1 - max 0 (min 1 (distance / maxRange))) * acc)))
   \<and> list_all (\<lambda>row. 0 \<le> accuracy (snd row) \<and> accuracy (snd row) \<le> 1) WeaponStats
   \<and> list_all (\<lambda>row. 0 < snd (snd row)) WeaponRangeConfig"
proof (intro conjI impI)
  assume a: "0 \<le> acc \<and> acc \<le> 1 \<and> 0 < maxRange"
  show "\<exists>p. calculateHitProbability distance maxRange acc = Inr p \<and> 0 \<le> p \<and> p \<le> 1
           \<and> (distance \<le> 1 \<longrightarrow> p = 1)
           \<and> (\<not> distance \<le> 1 \<longrightarrow>
                p = (1 - max 0 (min 1 (distance / maxRange))) * acc)"
  proof (cases "distance \<le> 1")
    case True
    then show ?thesis
      by (simp add: calculateHitProbability_def WeaponRangeConfig_def)
  next
    case False
    define nd where "nd = max 0 (min 1 (distance / maxRange))"
    have nd: "0 \<le> nd" "nd \<le> 1"
      by (simp_all add: nd_def)
    have eq: "calculateHitProbability distance maxRange acc = Inr ((1 - nd) * acc)"
      using False by (simp add: calculateHitProbability_def WeaponRangeConfig_def nd_def)
    have lo: "0 \<le> (1 - nd) * acc"
      using nd a by simp
    have "(1 - nd) * acc \<le> 1 * 1"
      using nd a by (intro mult_mono) simp_all
    then have hi: "(1 - nd) * acc \<le> 1"
      by simp
    show ?thesis
      using False eq lo hi by (simp add: nd_def)
  qed
next
  show "list_all (\<lambda>row. 0 \<le> accuracy (snd row) \<and> accuracy (snd row) \<le> 1) WeaponStats"
    by (simp add: WeaponStats_def)
  show "list_all (\<lambda>row. 0 < snd (snd row)) WeaponRangeConfig"
    by (simp add: WeaponRangeConfig_def)
qed

theorem hit_probability_bounds_witness:
  "calculateHitProbability 30 60 (8 / 10) = Inr (4 / 10)
   \<and> calculateHitProbability (1 / 2) 60 (8 / 10) = Inr 1"
  using hit_probability_bounds [where acc = "8 / 10" and maxRange = 60 and distance = 30]
    hit_probability_bounds [where acc = "8 / 10" and maxRange = 60 and distance = "1 / 2"]
  by (simp add: calculateHitProbability_def WeaponRangeConfig_def)

end
